theory Spec2Isabelle
  imports Complex_Main "HOL-Library.Stream"
begin

section \<open>The bank accounts of accounts.py\<close>

text \<open>
  The module has two classes: \<open>BasicAccount\<close> and its subclass \<open>PremiumAccount\<close>,
  which adds an overdraft limit and a cached overdrawn flag. Every method mutates
  \<open>self\<close> and prints a status line; the model passes the account in and returns the
  updated account together with the lines printed, in order, or the exception that
  left the method.

  The balance and the overdraft limit are whatever numbers the constructor was given,
  Python integers or floats, and every amount goes through \<open>float\<close>: the arithmetic of
  the methods is binary64 arithmetic. The first section models it.
\<close>

section \<open>Python numbers\<close>

subsection \<open>Rounding to binary64\<close>

text \<open>
  A float is a binary64 value: not-a-number, an infinity, or a finite real of the
  form \<open>k * 2 ^ q\<close> with \<open>\<bar>k\<bar> < 2 ^ 53\<close> and \<open>- 1074 \<le> q \<le> 971\<close>. The sign of zero
  is not represented; no comparison of the module can see it.

  \<open>round_half_even\<close> rounds a real to the nearest integer, a tie going to the even
  one. \<open>binade m\<close> is the exponent \<open>e\<close> with \<open>2 ^ e \<le> m < 2 ^ (e + 1)\<close>, found by
  counting up from -1022 (the exponent of the subnormal numbers) and stopping at 1023
  (the largest). \<open>round_mag\<close> rounds a magnitude to 53 significant bits at that
  exponent, and \<open>round64\<close> is the rounding of every arithmetic operation: to the
  nearest float, ties to even, to an infinity from \<open>2 ^ 1024 - 2 ^ 970\<close> on.
\<close>

definition round_half_even :: "real \<Rightarrow> int" where
  "round_half_even t =
     (let f = \<lfloor>t\<rfloor>; r = t - of_int f
      in if r < 1 / 2 then f else if 1 / 2 < r then f + 1 else if even f then f else f + 1)"

fun binade_from :: "nat \<Rightarrow> int \<Rightarrow> real \<Rightarrow> int" where
  "binade_from 0 e m = e"
| "binade_from (Suc k) e m = (if m < 2 powi (e + 1) then e else binade_from k (e + 1) m)"

definition binade :: "real \<Rightarrow> int" where
  "binade m = binade_from 2045 (- 1022) m"

definition quantum :: "real \<Rightarrow> real" where
  "quantum m = 2 powi (binade m - 52)"

definition round_mag :: "real \<Rightarrow> real" where
  "round_mag m = of_int (round_half_even (m / quantum m)) * quantum m"

datatype pyfloat = NaN | NInf | Finite real | PInf

definition round64 :: "real \<Rightarrow> pyfloat" where
  "round64 x =
     (let r = round_mag \<bar>x\<bar>
      in if 2 ^ 1024 \<le> r then (if 0 < x then PInf else NInf) else Finite (sgn x * r))"

text \<open>
  \<open>Finite x\<close> stands for a float only when \<open>x\<close> is a value that rounding returns;
  \<open>is_double\<close> says so, and \<open>is_float\<close> extends it to the other three kinds.
\<close>

definition is_double :: "real \<Rightarrow> bool" where
  "is_double x = (round64 x = Finite x)"

fun is_float :: "pyfloat \<Rightarrow> bool" where
  "is_float (Finite x) = is_double x"
| "is_float f = True"

subsection \<open>Float arithmetic and comparison\<close>

fun fneg :: "pyfloat \<Rightarrow> pyfloat" where
  "fneg NaN = NaN"
| "fneg NInf = PInf"
| "fneg (Finite a) = Finite (- a)"
| "fneg PInf = NInf"

fun fadd :: "pyfloat \<Rightarrow> pyfloat \<Rightarrow> pyfloat" where
  "fadd NaN y = NaN"
| "fadd x NaN = NaN"
| "fadd PInf NInf = NaN"
| "fadd NInf PInf = NaN"
| "fadd PInf y = PInf"
| "fadd x PInf = PInf"
| "fadd NInf y = NInf"
| "fadd x NInf = NInf"
| "fadd (Finite a) (Finite b) = round64 (a + b)"

definition fsub :: "pyfloat \<Rightarrow> pyfloat \<Rightarrow> pyfloat" where
  "fsub x y = fadd x (fneg y)"

text \<open>Every comparison with not-a-number is false.\<close>

fun flt :: "pyfloat \<Rightarrow> pyfloat \<Rightarrow> bool" where
  "flt NaN y = False"
| "flt x NaN = False"
| "flt x NInf = False"
| "flt NInf y = True"
| "flt PInf y = False"
| "flt (Finite a) PInf = True"
| "flt (Finite a) (Finite b) = (a < b)"

fun fle :: "pyfloat \<Rightarrow> pyfloat \<Rightarrow> bool" where
  "fle NaN y = False"
| "fle x NaN = False"
| "fle NInf y = True"
| "fle x PInf = True"
| "fle x NInf = False"
| "fle PInf y = False"
| "fle (Finite a) (Finite b) = (a \<le> b)"

subsection \<open>Integers and floats together\<close>

text \<open>
  Integers are unbounded. A comparison between an integer and a float is exact: it
  compares the mathematical values, which \<open>value_of\<close> gives. Arithmetic between them
  converts the integer first, \<open>float\<close> of an integer being its rounding, or
  \<open>OverflowError\<close> when that is an infinity. A sum of two integers is an integer.
\<close>

datatype pynum = PyInt int | PyFloat pyfloat

datatype exn = ValueError | TypeError | OverflowError

fun value_of :: "pynum \<Rightarrow> pyfloat" where
  "value_of (PyInt i) = Finite (of_int i)"
| "value_of (PyFloat f) = f"

definition py_lt :: "pynum \<Rightarrow> pynum \<Rightarrow> bool" where
  "py_lt a b = flt (value_of a) (value_of b)"

definition py_le :: "pynum \<Rightarrow> pynum \<Rightarrow> bool" where
  "py_le a b = fle (value_of a) (value_of b)"

fun py_neg :: "pynum \<Rightarrow> pynum" where
  "py_neg (PyInt i) = PyInt (- i)"
| "py_neg (PyFloat f) = PyFloat (fneg f)"

fun to_float :: "pynum \<Rightarrow> exn + pyfloat" where
  "to_float (PyFloat f) = Inr f"
| "to_float (PyInt i) =
     (case round64 (of_int i) of Finite r \<Rightarrow> Inr (Finite r) | _ \<Rightarrow> Inl OverflowError)"

definition float_op ::
  "(pyfloat \<Rightarrow> pyfloat \<Rightarrow> pyfloat) \<Rightarrow> pynum \<Rightarrow> pynum \<Rightarrow> exn + pynum" where
  "float_op f a b =
     (case to_float a of
        Inl e \<Rightarrow> Inl e
      | Inr x \<Rightarrow> (case to_float b of Inl e \<Rightarrow> Inl e | Inr y \<Rightarrow> Inr (PyFloat (f x y))))"

fun py_add :: "pynum \<Rightarrow> pynum \<Rightarrow> exn + pynum" where
  "py_add (PyInt i) (PyInt j) = Inr (PyInt (i + j))"
| "py_add a b = float_op fadd a b"

fun py_sub :: "pynum \<Rightarrow> pynum \<Rightarrow> exn + pynum" where
  "py_sub (PyInt i) (PyInt j) = Inr (PyInt (i - j))"
| "py_sub a b = float_op fsub a b"

section \<open>The module\<close>

subsection \<open>Arguments and printed lines\<close>

text \<open>
  \<open>deposit\<close> and \<open>withdraw\<close> start with \<open>float(amount)\<close> inside
  \<open>try ... except ValueError\<close>. The argument is a number; or text, which \<open>float\<close>
  either reads as a float (\<open>Text (Some f)\<close>: \<open>'12.5'\<close>, but also \<open>'nan'\<close> and
  \<open>'inf'\<close>) or rejects with \<open>ValueError\<close> (\<open>Text None\<close>); or an object \<open>float\<close>
  has no conversion for, such as \<open>None\<close> or a list (\<open>NoNumber\<close>), which raises
  \<open>TypeError\<close>. Reading a numeral is the runtime's work and is not modelled: the text
  comes with what \<open>float\<close> makes of it.
\<close>

datatype amount = Number pynum | Text "pyfloat option" | NoNumber

fun py_float :: "amount \<Rightarrow> exn + pyfloat" where
  "py_float (Number n) = to_float n"
| "py_float (Text None) = Inl ValueError"
| "py_float (Text (Some f)) = Inr f"
| "py_float NoNumber = Inl TypeError"

text \<open>
  A float that a caller passes is a binary64 value. The type \<open>pyfloat\<close> has more
  finite values than that, so a statement that depends on it says \<open>float_argument\<close>.
\<close>

fun float_argument :: "amount \<Rightarrow> bool" where
  "float_argument (Number (PyFloat f)) = is_float f"
| "float_argument (Text (Some f)) = is_float f"
| "float_argument a = True"

text \<open>
  One constructor for each \<open>print\<close> statement of the module. The \<open>round(x, 2)\<close> of
  the printed lines only formats the output; the messages carry the unrounded value.
\<close>

datatype message =
    Not_a_number
  | Negative_input
  | New_balance pynum
  | Can_not_withdraw pyfloat
  | Has_withdrawn string pyfloat pynum
  | Closing_account
  | Can_not_close pynum

subsection \<open>The two classes\<close>

text \<open>
  \<open>cardNum\<close> and \<open>cardExp\<close> do not exist on the object until \<open>issueNewCard\<close> has
  run, hence the options. \<open>PremiumAccount\<close> extends \<open>BasicAccount\<close>, so a method of
  the base class, written over the record scheme, also runs on a premium account.
\<close>

record BasicAccount =
  balance :: pynum
  name :: string
  acNum :: int
  cardNum :: "string option"
  cardExp :: "(int \<times> int) option"

record PremiumAccount = BasicAccount +
  overdraftLimit :: pynum
  overdraft :: bool

subsection \<open>Construction and the shared counter\<close>

text \<open>
  The class attribute \<open>BasicAccount.account_num\<close> (initially 0) is the only state
  shared between accounts. It is passed in and returned.
\<close>

definition openAccount :: "int \<Rightarrow> int" where
  "openAccount account_num = account_num + 1"

definition BasicAccount_init :: "int \<Rightarrow> string \<Rightarrow> pynum \<Rightarrow> int \<times> BasicAccount" where
  "BasicAccount_init account_num theAcName theOpeningBalance =
     (let account_num' = openAccount account_num
      in (account_num',
          \<lparr>balance = theOpeningBalance, name = theAcName, acNum = account_num',
           cardNum = None, cardExp = None\<rparr>))"

definition PremiumAccount_init ::
  "int \<Rightarrow> string \<Rightarrow> pynum \<Rightarrow> pynum \<Rightarrow> int \<times> PremiumAccount" where
  "PremiumAccount_init account_num theAcName theOpeningBalance theInitialOverdraft =
     (let (account_num', base) = BasicAccount_init account_num theAcName theOpeningBalance
      in (account_num',
          \<lparr>balance = balance base, name = name base, acNum = acNum base,
           cardNum = cardNum base, cardExp = cardExp base,
           overdraftLimit = theInitialOverdraft, overdraft = False\<rparr>))"

subsection \<open>Methods of BasicAccount\<close>

text \<open>
  Only \<open>ValueError\<close> is caught. Any other exception of \<open>float\<close>, and the
  \<open>OverflowError\<close> of an addition or subtraction that has to convert an integer
  balance, leaves the method before anything is assigned.
\<close>

definition BasicAccount_deposit ::
  "amount \<Rightarrow> 'a BasicAccount_scheme \<Rightarrow> exn + ('a BasicAccount_scheme \<times> message list)" where
  "BasicAccount_deposit amount self =
     (case py_float amount of
        Inl e \<Rightarrow> if e = ValueError then Inr (self, [Not_a_number]) else Inl e
      | Inr flt_amount \<Rightarrow>
          if flt flt_amount (Finite 0) then Inr (self, [Negative_input])
          else (case py_add (balance self) (PyFloat flt_amount) of
                  Inl e \<Rightarrow> Inl e
                | Inr b \<Rightarrow>
                    (let self' = self\<lparr>balance := b\<rparr>
                     in Inr (self', [New_balance (balance self')]))))"

definition BasicAccount_withdraw ::
  "amount \<Rightarrow> 'a BasicAccount_scheme \<Rightarrow> exn + ('a BasicAccount_scheme \<times> message list)" where
  "BasicAccount_withdraw amount self =
     (case py_float amount of
        Inl e \<Rightarrow> if e = ValueError then Inr (self, [Not_a_number]) else Inl e
      | Inr flt_amount \<Rightarrow>
          if flt flt_amount (Finite 0) then Inr (self, [Negative_input])
          else if py_lt (balance self) (PyFloat flt_amount)
          then Inr (self, [Can_not_withdraw flt_amount])
          else (case py_sub (balance self) (PyFloat flt_amount) of
                  Inl e \<Rightarrow> Inl e
                | Inr b \<Rightarrow>
                    (let self' = self\<lparr>balance := b\<rparr>
                     in Inr (self', [Has_withdrawn (name self') flt_amount (balance self')]))))"

definition BasicAccount_getAvailableBalance :: "'a BasicAccount_scheme \<Rightarrow> exn + pyfloat" where
  "BasicAccount_getAvailableBalance self = to_float (balance self)"

definition getBalance :: "'a BasicAccount_scheme \<Rightarrow> exn + pyfloat" where
  "getBalance self = to_float (balance self)"

text \<open>
  \<open>closeAccount\<close> calls \<open>self.withdraw(self.balance)\<close>, which Python resolves in
  the class of \<open>self\<close>: the method to call is a parameter. The third component is
  the value returned, \<open>None\<close> standing for Python's \<open>None\<close>.
\<close>

definition BasicAccount_closeAccount ::
  "(amount \<Rightarrow> 'a BasicAccount_scheme \<Rightarrow> exn + ('a BasicAccount_scheme \<times> message list)) \<Rightarrow>
   'a BasicAccount_scheme \<Rightarrow> exn + ('a BasicAccount_scheme \<times> message list \<times> bool option)" where
  "BasicAccount_closeAccount self_withdraw self =
     (case self_withdraw (Number (balance self)) self of
        Inl e \<Rightarrow> Inl e
      | Inr (self', out) \<Rightarrow> Inr (self', out @ [Closing_account], Some True))"

definition closeAccount ::
  "BasicAccount \<Rightarrow> exn + (BasicAccount \<times> message list \<times> bool option)" where
  "closeAccount self = BasicAccount_closeAccount BasicAccount_withdraw self"

subsection \<open>Issuing a card\<close>

text \<open>
  \<open>str\<close> of an integer is its decimal numeral, with a minus sign when negative.
\<close>

definition digit_char :: "nat \<Rightarrow> char" where
  "digit_char d = ''0123456789'' ! d"

fun str_nat :: "nat \<Rightarrow> string" where
  "str_nat n = (if n < 10 then [digit_char n] else str_nat (n div 10) @ [digit_char (n mod 10)])"

definition str_int :: "int \<Rightarrow> string" where
  "str_int i = (if i < 0 then CHR ''-'' # str_nat (nat (- i)) else str_nat (nat i))"

text \<open>
  \<open>int\<close> of text raises \<open>ValueError\<close> on the empty string and on a character that
  is not part of a numeral. The only text that reaches it is \<open>str(exp_year)[2:]\<close>, which
  has no sign (the sign of a numeral is its first character), so only decimal digits
  are read; signs, blanks and underscores, which \<open>int\<close> accepts elsewhere, are not
  modelled.
\<close>

definition digit_value :: "char \<Rightarrow> int option" where
  "digit_value c = map_of (zip ''0123456789'' [0, 1, 2, 3, 4, 5, 6, 7, 8, 9]) c"

fun digits_value :: "string \<Rightarrow> int \<Rightarrow> exn + int" where
  "digits_value [] acc = Inr acc"
| "digits_value (c # cs) acc =
     (case digit_value c of
        None \<Rightarrow> Inl ValueError
      | Some d \<Rightarrow> digits_value cs (10 * acc + d))"

definition py_int :: "string \<Rightarrow> exn + int" where
  "py_int s = (if s = [] then Inl ValueError else digits_value s 0)"

text \<open>
  The random source is the stream of the values that successive calls of
  \<open>random.randint(0, 9)\<close> return; the loop \<open>for i in range(0, 16)\<close> takes one value
  per round and appends its numeral. The clock is read twice, once for the year and
  once for the month; both readings are parameters. The expiry is assigned before the
  loop runs, and a \<open>ValueError\<close> of \<open>int\<close> leaves the account and the random source
  untouched.
\<close>

fun card_digits :: "nat \<Rightarrow> int stream \<Rightarrow> string \<Rightarrow> string \<times> int stream" where
  "card_digits 0 rnd card_num = (card_num, rnd)"
| "card_digits (Suc k) rnd card_num =
     (let x = str_int (shd rnd) in card_digits k (stl rnd) (card_num @ x))"

definition issueNewCard ::
  "int stream \<Rightarrow> int \<Rightarrow> int \<Rightarrow> 'a BasicAccount_scheme \<Rightarrow>
   exn + ('a BasicAccount_scheme \<times> int stream)" where
  "issueNewCard rnd year_now month_now self =
     (let exp_year = year_now + 3;
          month = month_now
      in case py_int (drop 2 (str_int exp_year)) of
           Inl e \<Rightarrow> Inl e
         | Inr yy \<Rightarrow>
             (let self1 = self\<lparr>cardExp := Some (month, yy)\<rparr>;
                  (card_num, rnd') = card_digits 16 rnd []
              in Inr (self1\<lparr>cardNum := Some card_num\<rparr>, rnd')))"

subsection \<open>Methods of PremiumAccount\<close>

definition setOverdraftLimit :: "pynum \<Rightarrow> PremiumAccount \<Rightarrow> PremiumAccount" where
  "setOverdraftLimit newLimit self = self\<lparr>overdraftLimit := newLimit\<rparr>"

definition PremiumAccount_getAvailableBalance :: "PremiumAccount \<Rightarrow> exn + pynum" where
  "PremiumAccount_getAvailableBalance self =
     (case BasicAccount_getAvailableBalance self of
        Inl e \<Rightarrow> Inl e
      | Inr f \<Rightarrow> py_add (PyFloat f) (overdraftLimit self))"

definition PremiumAccount_deposit ::
  "amount \<Rightarrow> PremiumAccount \<Rightarrow> exn + (PremiumAccount \<times> message list)" where
  "PremiumAccount_deposit amount self =
     (case BasicAccount_deposit amount self of
        Inl e \<Rightarrow> Inl e
      | Inr (self', out) \<Rightarrow>
          if overdraft self' \<and> py_lt (PyFloat (Finite 0)) (balance self')
          then Inr (self'\<lparr>overdraft := False\<rparr>, out)
          else Inr (self', out))"

definition PremiumAccount_withdraw ::
  "amount \<Rightarrow> PremiumAccount \<Rightarrow> exn + (PremiumAccount \<times> message list)" where
  "PremiumAccount_withdraw amount self =
     (case py_float amount of
        Inl e \<Rightarrow> if e = ValueError then Inr (self, [Not_a_number]) else Inl e
      | Inr flt_amount \<Rightarrow>
          if flt flt_amount (Finite 0) then Inr (self, [Negative_input])
          else (case py_add (balance self) (overdraftLimit self) of
                  Inl e \<Rightarrow> Inl e
                | Inr available \<Rightarrow>
                    if py_lt available (PyFloat flt_amount)
                    then Inr (self, [Can_not_withdraw flt_amount])
                    else (case py_sub (balance self) (PyFloat flt_amount) of
                            Inl e \<Rightarrow> Inl e
                          | Inr b \<Rightarrow>
                              (let self1 = self\<lparr>balance := b\<rparr>;
                                   self2 = (if py_lt (balance self1) (PyFloat (Finite 0))
                                            then self1\<lparr>overdraft := True\<rparr> else self1)
                               in Inr (self2,
                                    [Has_withdrawn (name self2) flt_amount (balance self2)])))))"

text \<open>
  The overdrawn branch returns \<open>False\<close>. The other branch calls the base method and
  discards what it returns: the method ends without a \<open>return\<close>, so the caller gets
  \<open>None\<close>.
\<close>

definition PremiumAccount_closeAccount ::
  "PremiumAccount \<Rightarrow> exn + (PremiumAccount \<times> message list \<times> bool option)" where
  "PremiumAccount_closeAccount self =
     (if overdraft self then Inr (self, [Can_not_close (balance self)], Some False)
      else (case BasicAccount_closeAccount PremiumAccount_withdraw self of
              Inl e \<Rightarrow> Inl e
            | Inr (self', out, _) \<Rightarrow> Inr (self', out, None)))"

subsection \<open>Sequences of calls\<close>

text \<open>
  A caller creates accounts one after the other, and calls methods on an account one
  after the other. A call that raises leaves the object as it was, since every
  assignment of the module comes after the last point where a method can raise;
  \<open>after\<close> is the object once the call is over. \<open>__del__\<close> runs \<open>closeAccount\<close>
  when the runtime finalises the object; it is one more call of \<open>closeAccount\<close> in
  the sequence.
\<close>

definition after :: "'a \<Rightarrow> exn + ('a \<times> 'b) \<Rightarrow> 'a" where
  "after self r = (case r of Inl e \<Rightarrow> self | Inr (self', _) \<Rightarrow> self')"

datatype any_account = Basic BasicAccount | Premium PremiumAccount

datatype request = NewBasic string pynum | NewPremium string pynum pynum

fun create :: "int \<Rightarrow> request \<Rightarrow> int \<times> any_account" where
  "create account_num (NewBasic n b) =
     (let (c, a) = BasicAccount_init account_num n b in (c, Basic a))"
| "create account_num (NewPremium n b l) =
     (let (c, a) = PremiumAccount_init account_num n b l in (c, Premium a))"

fun create_all :: "int \<Rightarrow> request list \<Rightarrow> int \<times> any_account list" where
  "create_all account_num [] = (account_num, [])"
| "create_all account_num (r # rs) =
     (let (c, a) = create account_num r;
          (c', as) = create_all c rs
      in (c', a # as))"

fun number_of :: "any_account \<Rightarrow> int" where
  "number_of (Basic a) = acNum a"
| "number_of (Premium a) = acNum a"

datatype basic_op =
  Deposit amount | Withdraw amount | CloseAccount | IssueNewCard "int stream" int int

fun basic_call :: "basic_op \<Rightarrow> BasicAccount \<Rightarrow> BasicAccount" where
  "basic_call (Deposit x) a = after a (BasicAccount_deposit x a)"
| "basic_call (Withdraw x) a = after a (BasicAccount_withdraw x a)"
| "basic_call CloseAccount a = after a (closeAccount a)"
| "basic_call (IssueNewCard rnd y m) a = after a (issueNewCard rnd y m a)"

fun basic_calls :: "basic_op list \<Rightarrow> BasicAccount \<Rightarrow> BasicAccount" where
  "basic_calls [] a = a"
| "basic_calls (c # cs) a = basic_calls cs (basic_call c a)"

datatype premium_op =
  PDeposit amount | PWithdraw amount | PSetOverdraftLimit pynum | PCloseAccount
  | PIssueNewCard "int stream" int int

fun premium_call :: "premium_op \<Rightarrow> PremiumAccount \<Rightarrow> PremiumAccount" where
  "premium_call (PDeposit x) a = after a (PremiumAccount_deposit x a)"
| "premium_call (PWithdraw x) a = after a (PremiumAccount_withdraw x a)"
| "premium_call (PSetOverdraftLimit l) a = setOverdraftLimit l a"
| "premium_call PCloseAccount a = after a (PremiumAccount_closeAccount a)"
| "premium_call (PIssueNewCard rnd y m) a = after a (issueNewCard rnd y m a)"

fun premium_calls :: "premium_op list \<Rightarrow> PremiumAccount \<Rightarrow> PremiumAccount" where
  "premium_calls [] a = a"
| "premium_calls (c # cs) a = premium_calls cs (premium_call c a)"

text \<open>
  The bound of the overdraft, as the Python expression
  \<open>self.balance >= -self.overdraftLimit\<close>.
\<close>

definition within_limit :: "PremiumAccount \<Rightarrow> bool" where
  "within_limit self = py_le (py_neg (overdraftLimit self)) (balance self)"

section \<open>Properties\<close>

declare str_nat.simps [simp del]

lemmas init_defs = BasicAccount_init_def PremiumAccount_init_def openAccount_def

lemmas method_defs =
  BasicAccount_deposit_def BasicAccount_withdraw_def BasicAccount_closeAccount_def
  closeAccount_def PremiumAccount_deposit_def PremiumAccount_withdraw_def
  PremiumAccount_closeAccount_def setOverdraftLimit_def after_def

lemmas number_defs = py_lt_def py_le_def float_op_def fsub_def

subsection \<open>Rounding\<close>

text \<open>
  Rounding is monotone, symmetric about zero, and leaves a float as it is; a float
  that lies below a real also lies below its rounding. Integers up to \<open>2 ^ 53\<close> in
  magnitude are floats.
\<close>

lemma rhe_of_int [simp]: "round_half_even (of_int k) = k"
  by (simp add: round_half_even_def)

lemma rhe_bounds: "\<lfloor>t\<rfloor> \<le> round_half_even t \<and> round_half_even t \<le> \<lfloor>t\<rfloor> + 1"
  by (simp add: round_half_even_def Let_def)

lemma rhe_mono:
  assumes "t \<le> u"
  shows "round_half_even t \<le> round_half_even u"
proof (cases "\<lfloor>t\<rfloor> = \<lfloor>u\<rfloor>")
  case True
  with assms show ?thesis
    by (auto simp add: round_half_even_def Let_def)
next
  case False
  with assms have "\<lfloor>t\<rfloor> + 1 \<le> \<lfloor>u\<rfloor>"
    using floor_mono [OF assms] by linarith
  with rhe_bounds [of t] rhe_bounds [of u] show ?thesis by linarith
qed

lemma rhe_le: "t \<le> of_int k \<Longrightarrow> round_half_even t \<le> k"
  using rhe_mono [of t "of_int k"] by simp

lemma rhe_ge: "of_int k \<le> t \<Longrightarrow> k \<le> round_half_even t"
  using rhe_mono [of "of_int k" t] by simp

lemma binade_from_spec:
  "e \<le> binade_from k e m \<and> binade_from k e m \<le> e + int k \<and>
   (binade_from k e m < e + int k \<longrightarrow> m < 2 powi (binade_from k e m + 1)) \<and>
   (e < binade_from k e m \<longrightarrow> 2 powi (binade_from k e m) \<le> m)"
proof (induction k arbitrary: e)
  case 0
  show ?case by simp
next
  case (Suc k)
  show ?case
  proof (cases "m < 2 powi (e + 1)")
    case True
    then show ?thesis by simp
  next
    case False
    define r where "r = binade_from k (e + 1) m"
    have eq: "binade_from (Suc k) e m = r"
      using False by (simp add: r_def)
    have ih: "e + 1 \<le> r" "r \<le> e + 1 + int k"
      "r < e + 1 + int k \<longrightarrow> m < 2 powi (r + 1)" "e + 1 < r \<longrightarrow> 2 powi r \<le> m"
      using Suc.IH [of "e + 1"] by (simp_all add: r_def)
    have low: "2 powi r \<le> m"
    proof (cases "r = e + 1")
      case True
      with False show ?thesis by simp
    next
      case False
      with ih show ?thesis by simp
    qed
    from ih low show ?thesis
      unfolding eq by simp
  qed
qed

lemma binade_range: "- 1022 \<le> binade m" "binade m \<le> 1023"
  using binade_from_spec [of "- 1022" 2045 m] by (simp_all add: binade_def)

lemma binade_upper: "binade m < 1023 \<Longrightarrow> m < 2 powi (binade m + 1)"
  using binade_from_spec [of "- 1022" 2045 m] by (simp add: binade_def)

lemma binade_lower: "- 1022 < binade m \<Longrightarrow> 2 powi (binade m) \<le> m"
  using binade_from_spec [of "- 1022" 2045 m] by (simp add: binade_def)

lemma binade_eqI:
  assumes "- 1022 \<le> e" "e \<le> 1023"
    and lo: "e = - 1022 \<or> 2 powi e \<le> m"
    and hi: "e = 1023 \<or> m < 2 powi (e + 1)"
  shows "binade m = e"
proof (rule ccontr)
  assume ne: "binade m \<noteq> e"
  show False
  proof (cases "binade m < e")
    case True
    then have "binade m < 1023" using assms(2) by simp
    then have "m < 2 powi (binade m + 1)" by (rule binade_upper)
    also have "(2::real) powi (binade m + 1) \<le> 2 powi e"
      using True by (intro power_int_increasing) simp_all
    finally have "m < 2 powi e" .
    moreover have "e \<noteq> - 1022" using True binade_range(1) [of m] by simp
    ultimately show False using lo by simp
  next
    case False
    with ne have gt: "e < binade m" by simp
    then have "- 1022 < binade m" using assms(1) by simp
    then have "2 powi (binade m) \<le> m" by (rule binade_lower)
    moreover have "(2::real) powi (e + 1) \<le> 2 powi (binade m)"
      using gt by (intro power_int_increasing) simp_all
    moreover have "e \<noteq> 1023" using gt binade_range(2) [of m] by simp
    ultimately show False using hi by simp
  qed
qed

lemma binade_mono:
  assumes "m \<le> n"
  shows "binade m \<le> binade n"
proof (rule ccontr)
  assume "\<not> binade m \<le> binade n"
  then have gt: "binade n < binade m" by simp
  then have "binade n < 1023" "- 1022 < binade m"
    using binade_range [of m] binade_range [of n] by simp_all
  then have "n < 2 powi (binade n + 1)" "2 powi (binade m) \<le> m"
    by (simp_all add: binade_upper binade_lower)
  moreover have "(2::real) powi (binade n + 1) \<le> 2 powi (binade m)"
    using gt by (intro power_int_increasing) simp_all
  ultimately show False using assms by simp
qed

lemma quantum_pos: "0 < quantum m"
  by (simp add: quantum_def)

lemma round_mag_quantum: "round_mag m = of_int (round_half_even (m / quantum m)) * quantum m"
  by (simp add: round_mag_def)

lemma quantum_scale:
  "2 powi (binade m + 1) = 2 ^ 53 * quantum m" "2 powi (binade m) = 2 ^ 52 * quantum m"
proof -
  have "(2::real) powi (53 + (binade m - 52)) = 2 powi 53 * 2 powi (binade m - 52)"
    by (rule power_int_add) simp
  moreover have "53 + (binade m - 52) = binade m + 1" by simp
  ultimately show "2 powi (binade m + 1) = 2 ^ 53 * quantum m"
    by (simp add: quantum_def)
  have "(2::real) powi (52 + (binade m - 52)) = 2 powi 52 * 2 powi (binade m - 52)"
    by (rule power_int_add) simp
  moreover have "52 + (binade m - 52) = binade m" by simp
  ultimately show "2 powi (binade m) = 2 ^ 52 * quantum m"
    by (simp add: quantum_def)
qed

lemma round_mag_nonneg:
  assumes "0 \<le> m"
  shows "0 \<le> round_mag m"
proof -
  have "0 \<le> m / quantum m"
    using assms quantum_pos [of m] by simp
  then have "0 \<le> round_half_even (m / quantum m)"
    using rhe_ge [of 0 "m / quantum m"] by simp
  then show ?thesis
    using quantum_pos [of m] by (simp add: round_mag_quantum)
qed

lemma round_mag_upper:
  assumes "binade m < 1023"
  shows "round_mag m \<le> 2 powi (binade m + 1)"
proof -
  have "m < 2 ^ 53 * quantum m"
    using binade_upper [OF assms] by (simp add: quantum_scale)
  then have "m / quantum m \<le> of_int (2 ^ 53)"
    using quantum_pos [of m] by (simp add: pos_divide_le_eq)
  then have "round_half_even (m / quantum m) \<le> 2 ^ 53"
    by (rule rhe_le)
  then have "real_of_int (round_half_even (m / quantum m)) \<le> real_of_int (2 ^ 53)"
    by (simp only: of_int_le_iff)
  then have "real_of_int (round_half_even (m / quantum m)) \<le> 2 ^ 53"
    by simp
  then show ?thesis
    using quantum_pos [of m] by (simp add: round_mag_quantum quantum_scale)
qed

lemma round_mag_lower:
  assumes "- 1022 < binade m"
  shows "2 powi (binade m) \<le> round_mag m"
proof -
  have "2 ^ 52 * quantum m \<le> m"
    using binade_lower [OF assms] by (simp add: quantum_scale)
  then have "of_int (2 ^ 52) \<le> m / quantum m"
    using quantum_pos [of m] by (simp add: pos_le_divide_eq)
  then have "2 ^ 52 \<le> round_half_even (m / quantum m)"
    by (rule rhe_ge)
  then have "real_of_int (2 ^ 52) \<le> real_of_int (round_half_even (m / quantum m))"
    by (simp only: of_int_le_iff)
  then have "2 ^ 52 \<le> real_of_int (round_half_even (m / quantum m))"
    by simp
  then show ?thesis
    using quantum_pos [of m] by (simp add: round_mag_quantum quantum_scale)
qed

lemma round_mag_mono:
  assumes "m \<le> n"
  shows "round_mag m \<le> round_mag n"
proof (cases "binade m = binade n")
  case True
  then have q: "quantum m = quantum n" by (simp add: quantum_def)
  have "m / quantum n \<le> n / quantum n"
    using assms quantum_pos [of n] by (simp add: divide_right_mono)
  then have "round_half_even (m / quantum n) \<le> round_half_even (n / quantum n)"
    by (rule rhe_mono)
  then have "real_of_int (round_half_even (m / quantum n))
      \<le> real_of_int (round_half_even (n / quantum n))"
    by linarith
  then show ?thesis
    using quantum_pos [of n] by (simp add: round_mag_quantum q)
next
  case False
  with binade_mono [OF assms] have lt: "binade m < binade n" by simp
  then have "binade m < 1023" "- 1022 < binade n"
    using binade_range [of m] binade_range [of n] by simp_all
  then have "round_mag m \<le> 2 powi (binade m + 1)" "2 powi (binade n) \<le> round_mag n"
    by (simp_all add: round_mag_upper round_mag_lower)
  moreover have "(2::real) powi (binade m + 1) \<le> 2 powi (binade n)"
    using lt by (intro power_int_increasing) simp_all
  ultimately show ?thesis by linarith
qed

lemma round_mag_fixed:
  assumes "binade r = e" "r = of_int k * 2 powi (e - 52)"
  shows "round_mag r = r"
  using assms by (simp add: round_mag_def quantum_def)

lemma round_mag_idem:
  assumes "0 \<le> m"
  shows "round_mag (round_mag m) = round_mag m"
proof -
  define e where "e = binade m"
  define k where "k = round_half_even (m / quantum m)"
  define r where "r = round_mag m"
  have r: "r = of_int k * quantum m"
    by (simp add: r_def k_def round_mag_quantum)
  have q: "quantum m = 2 powi (e - 52)" by (simp add: quantum_def e_def)
  have e: "- 1022 \<le> e" "e \<le> 1023" using binade_range [of m] by (simp_all add: e_def)
  have rpos: "0 \<le> r" using round_mag_nonneg [OF assms] by (simp add: r_def)
  have lo: "e = - 1022 \<or> 2 powi e \<le> r"
  proof (cases "- 1022 < e")
    case True
    then show ?thesis
      using round_mag_lower [of m] by (simp add: e_def r_def)
  next
    case False
    with e show ?thesis by linarith
  qed
  show ?thesis
  proof (cases "e = 1023 \<or> r < 2 powi (e + 1)")
    case True
    then have "binade r = e"
      using e lo by (intro binade_eqI) auto
    moreover have "r = of_int k * 2 powi (e - 52)"
      using r q by simp
    ultimately have "round_mag r = r"
      by (rule round_mag_fixed)
    then show ?thesis by (simp add: r_def)
  next
    case False
    then have e': "e < 1023" and ge: "2 powi (e + 1) \<le> r" using e by simp_all
    have "r \<le> 2 powi (e + 1)"
      using round_mag_upper [of m] e' by (simp add: e_def r_def)
    with ge have req: "r = 2 powi (e + 1)" by simp
    have b: "binade r = e + 1"
    proof (rule binade_eqI)
      show "- 1022 \<le> e + 1" "e + 1 \<le> 1023" using e e' by simp_all
      show "e + 1 = - 1022 \<or> 2 powi (e + 1) \<le> r" using req by simp
      have "(2::real) powi (e + 1) < 2 powi (e + 1 + 1)"
        by (intro power_int_strict_increasing) simp_all
      then show "e + 1 = 1023 \<or> r < 2 powi (e + 1 + 1)" using req by simp
    qed
    have "2 powi (binade r) = 2 ^ 52 * quantum r"
      by (rule quantum_scale)
    then have "r = of_int (2 ^ 52) * 2 powi (e + 1 - 52)"
      unfolding quantum_def b using req by simp
    with b have "round_mag r = r"
      by (rule round_mag_fixed)
    then show ?thesis by (simp add: r_def)
  qed
qed

lemma rhe_Ints: "t \<in> \<int> \<Longrightarrow> of_int (round_half_even t) = t"
  by (auto elim: Ints_cases)

lemma round_mag_exact: "m / quantum m \<in> \<int> \<Longrightarrow> round_mag m = m"
  using quantum_pos [of m] by (simp add: round_mag_quantum rhe_Ints)

lemma round_mag_0 [simp]: "round_mag 0 = 0"
  by (rule round_mag_exact) simp

lemma round64_0 [simp]: "round64 0 = Finite 0"
  by (simp add: round64_def)

lemma round64_not_NaN [simp]: "round64 x \<noteq> NaN"
  by (simp add: round64_def Let_def)

lemma round64_minus: "round64 (- x) = fneg (round64 x)"
  by (cases "x = 0") (auto simp add: round64_def Let_def sgn_if)

lemma round64_mono:
  assumes "x \<le> y"
  shows "fle (round64 x) (round64 y)"
proof -
  consider "0 \<le> x" | "x < 0" "0 \<le> y" | "y < 0" using assms by linarith
  then show ?thesis
  proof cases
    case 1
    then have "round_mag \<bar>x\<bar> \<le> round_mag \<bar>y\<bar>"
      using assms by (intro round_mag_mono) simp
    with 1 assms show ?thesis
      by (auto simp add: round64_def Let_def sgn_if)
  next
    case 2
    have "0 \<le> round_mag \<bar>x\<bar>" "0 \<le> round_mag \<bar>y\<bar>"
      by (simp_all add: round_mag_nonneg)
    with 2 show ?thesis
      by (auto simp add: round64_def Let_def sgn_if)
  next
    case 3
    then have "round_mag \<bar>y\<bar> \<le> round_mag \<bar>x\<bar>"
      using assms by (intro round_mag_mono) simp
    with 3 assms show ?thesis
      by (auto simp add: round64_def Let_def sgn_if)
  qed
qed

lemma round64_closed:
  assumes "round64 x = Finite y"
  shows "is_double y"
proof -
  define r where "r = round_mag \<bar>x\<bar>"
  have r: "r < 2 ^ 1024" "y = sgn x * r"
    using assms by (auto simp add: round64_def Let_def r_def split: if_splits)
  have rpos: "0 \<le> r" by (simp add: r_def round_mag_nonneg)
  have idem: "round_mag r = r" by (simp add: r_def round_mag_idem)
  have "\<bar>y\<bar> = r \<or> y = 0"
    using r rpos by (auto simp add: sgn_if abs_if)
  then show ?thesis
  proof
    assume a: "\<bar>y\<bar> = r"
    have "sgn y * r = y"
      using a by (auto simp add: sgn_if abs_if)
    then show ?thesis
      using r(1) a idem by (simp add: is_double_def round64_def Let_def)
  next
    assume "y = 0"
    then show ?thesis by (simp add: is_double_def)
  qed
qed

lemma is_double_minus [simp]: "is_double (- x) = is_double x"
  by (cases "round64 x") (auto simp add: is_double_def round64_minus)

lemma double_le_round64: "is_double c \<Longrightarrow> c \<le> y \<Longrightarrow> fle (Finite c) (round64 y)"
  using round64_mono [of c y] by (simp add: is_double_def)

lemma round64_le_double: "is_double c \<Longrightarrow> y \<le> c \<Longrightarrow> fle (round64 y) (Finite c)"
  using round64_mono [of y c] by (simp add: is_double_def)

lemma is_double_small_int:
  assumes "x \<in> \<int>" "\<bar>x\<bar> \<le> 2 ^ 53"
  shows "is_double x"
proof -
  define m where "m = \<bar>x\<bar>"
  have m: "m \<in> \<int>" "0 \<le> m" "m \<le> 2 ^ 53" using assms by (simp_all add: m_def)
  have e53: "binade m \<le> 53"
  proof (rule ccontr)
    assume "\<not> binade m \<le> 53"
    then have gt: "53 < binade m" by simp
    then have "2 powi (binade m) \<le> m" by (intro binade_lower) simp
    moreover have "(2::real) powi 53 < 2 powi (binade m)"
      using gt by (intro power_int_strict_increasing) simp_all
    ultimately show False using m(3) by simp
  qed
  have "m / quantum m \<in> \<int>"
  proof (cases "binade m \<le> 52")
    case True
    have "m / quantum m = m * 2 powi (52 - binade m)"
      by (simp add: quantum_def power_int_diff field_simps)
    also have "(2::real) powi (52 - binade m) = 2 ^ nat (52 - binade m)"
      using True by (simp add: power_int_def)
    finally show ?thesis using m(1) by simp
  next
    case False
    with e53 have e: "binade m = 53" by simp
    then have "2 powi 53 \<le> m" using binade_lower [of m] by simp
    with m(3) have "m = 2 ^ 53" by simp
    moreover have "quantum m = 2" using e by (simp add: quantum_def)
    ultimately show ?thesis by simp
  qed
  then have "round_mag m = m" by (rule round_mag_exact)
  moreover have "m < 2 ^ 1024"
    using m(3) by (rule le_less_trans) simp
  moreover have "sgn x * m = x" by (simp add: m_def sgn_if abs_if)
  ultimately show ?thesis
    by (simp add: is_double_def round64_def Let_def m_def [symmetric])
qed

lemma round64_at:
  assumes "binade \<bar>x\<bar> = e"
  shows "round64 x =
     (let q = 2 powi (e - 52); r = of_int (round_half_even (\<bar>x\<bar> / q)) * q
      in if 2 ^ 1024 \<le> r then (if 0 < x then PInf else NInf) else Finite (sgn x * r))"
  using assms by (simp add: round64_def round_mag_def quantum_def Let_def)

lemma round64_small_int: "x \<in> \<int> \<Longrightarrow> \<bar>x\<bar> \<le> 2 ^ 53 \<Longrightarrow> round64 x = Finite x"
  using is_double_small_int [of x] by (simp add: is_double_def)

lemma is_double_0 [simp]: "is_double 0"
  by (simp add: is_double_def)

lemma round_mag_top: "round_mag (2 ^ 1024) = 2 ^ 1024"
proof -
  have b: "binade (2 ^ 1024) = 1023"
    by (rule binade_eqI) simp_all
  have "quantum (2 ^ 1024) = 2 powi 971"
    by (simp only: quantum_def b) simp
  then have "(2::real) ^ 1024 / quantum (2 ^ 1024) = of_int (2 ^ 53)"
    by (simp only:) simp
  then have "(2::real) ^ 1024 / quantum (2 ^ 1024) \<in> \<int>"
    by (simp only: Ints_of_int)
  then show ?thesis by (rule round_mag_exact)
qed

lemma round64_overflow:
  assumes "2 ^ 1024 \<le> \<bar>x\<bar>"
  shows "round64 x = (if 0 < x then PInf else NInf)"
proof -
  have "round_mag (2 ^ 1024) \<le> round_mag \<bar>x\<bar>"
    using assms by (rule round_mag_mono)
  then have "2 ^ 1024 \<le> round_mag \<bar>x\<bar>"
    by (simp only: round_mag_top)
  then show ?thesis
    unfolding round64_def Let_def by (simp only: if_True)
qed

text \<open>
  The floats that the literals \<open>762.28\<close>, \<open>2.11\<close> and \<open>764.39\<close> denote, their
  sum and a difference; and the roundings of \<open>2 ^ 53 + 1\<close> and \<open>2 ^ 53 + 3\<close>, two
  integers that are not floats.
\<close>

lemma money_floats:
  "z = 76228 / 100 \<Longrightarrow> round64 z = Finite (3352542894484357 / 4398046511104)"
  "z = 211 / 100 \<Longrightarrow> round64 z = Finite (4751297606875873 / 2251799813685248)"
  "z = 76439 / 100 \<Longrightarrow> round64 z = Finite (6723645545245573 / 8796093022208)"
proof -
  have "binade \<bar>76228 / 100\<bar> = 9" by (rule binade_eqI) simp_all
  then have "round64 (76228 / 100) = Finite (3352542894484357 / 4398046511104)"
    using round64_at [of "76228 / 100" 9] by (simp add: round_half_even_def Let_def)
  then show "z = 76228 / 100 \<Longrightarrow> round64 z = Finite (3352542894484357 / 4398046511104)"
    by (erule_tac ssubst)
  have "binade \<bar>211 / 100\<bar> = 1" by (rule binade_eqI) simp_all
  then have "round64 (211 / 100) = Finite (4751297606875873 / 2251799813685248)"
    using round64_at [of "211 / 100" 1] by (simp add: round_half_even_def Let_def)
  then show "z = 211 / 100 \<Longrightarrow> round64 z = Finite (4751297606875873 / 2251799813685248)"
    by (erule_tac ssubst)
  have "binade \<bar>76439 / 100\<bar> = 9" by (rule binade_eqI) simp_all
  then have "round64 (76439 / 100) = Finite (6723645545245573 / 8796093022208)"
    using round64_at [of "76439 / 100" 9] by (simp add: round_half_even_def Let_def)
  then show "z = 76439 / 100 \<Longrightarrow> round64 z = Finite (6723645545245573 / 8796093022208)"
    by (erule_tac ssubst)
qed

lemma money_sum:
  "z = 3352542894484357 / 4398046511104 + 4751297606875873 / 2251799813685248 \<Longrightarrow>
   round64 z = Finite (6723645545245573 / 8796093022208)"
proof -
  have "binade \<bar>3352542894484357 / 4398046511104 + 4751297606875873 / 2251799813685248\<bar> = 9"
    by (rule binade_eqI) simp_all
  then have r: "round64 (3352542894484357 / 4398046511104 + 4751297606875873 / 2251799813685248)
      = Finite (6723645545245573 / 8796093022208)"
    using round64_at [of "3352542894484357 / 4398046511104 + 4751297606875873 / 2251799813685248" 9]
    by (simp add: round_half_even_def Let_def)
  show "z = 3352542894484357 / 4398046511104 + 4751297606875873 / 2251799813685248 \<Longrightarrow>
      round64 z = Finite (6723645545245573 / 8796093022208)"
    by (erule ssubst) (rule r)
qed

lemma money_difference:
  "z = 3352542894484357 / 4398046511104 - 6723645545245573 / 8796093022208 \<Longrightarrow>
   round64 z = Finite (- (18559756276859 / 8796093022208))"
proof -
  have "binade \<bar>3352542894484357 / 4398046511104 - 6723645545245573 / 8796093022208\<bar> = 1"
    by (rule binade_eqI) simp_all
  then have r: "round64 (3352542894484357 / 4398046511104 - 6723645545245573 / 8796093022208)
      = Finite (- (18559756276859 / 8796093022208))"
    using round64_at [of "3352542894484357 / 4398046511104 - 6723645545245573 / 8796093022208" 1]
    by (simp add: round_half_even_def Let_def)
  show "z = 3352542894484357 / 4398046511104 - 6723645545245573 / 8796093022208 \<Longrightarrow>
      round64 z = Finite (- (18559756276859 / 8796093022208))"
    by (erule ssubst) (rule r)
qed

lemma round_2_53_1: "z = 2 ^ 53 + 1 \<Longrightarrow> round64 z = Finite (2 ^ 53)"
proof -
  have "binade \<bar>2 ^ 53 + 1\<bar> = 53" by (rule binade_eqI) simp_all
  then have "round64 (2 ^ 53 + 1) = Finite (2 ^ 53)"
    using round64_at [of "2 ^ 53 + 1" 53] by (simp add: round_half_even_def Let_def)
  then show "z = 2 ^ 53 + 1 \<Longrightarrow> round64 z = Finite (2 ^ 53)"
    by (erule_tac ssubst)
qed

lemma round_2_53_3: "z = 2 ^ 53 + 3 \<Longrightarrow> round64 z = Finite (2 ^ 53 + 4)"
proof -
  have "binade \<bar>2 ^ 53 + 3\<bar> = 53" by (rule binade_eqI) simp_all
  then have "round64 (2 ^ 53 + 3) = Finite (2 ^ 53 + 4)"
    using round64_at [of "2 ^ 53 + 3" 53] by (simp add: round_half_even_def Let_def)
  then show "z = 2 ^ 53 + 3 \<Longrightarrow> round64 z = Finite (2 ^ 53 + 4)"
    by (erule_tac ssubst)
qed

subsection \<open>Arithmetic of the methods\<close>

lemma to_float_nonneg:
  assumes "value_of v = Finite b" "0 \<le> b"
  shows "to_float v = Inl OverflowError \<or>
         (\<exists>r. to_float v = Inr (Finite r) \<and> 0 \<le> r \<and> (\<forall>c. is_double c \<longrightarrow> c \<le> b \<longrightarrow> c \<le> r))"
proof (cases v)
  case (PyFloat f)
  with assms show ?thesis by simp
next
  case (PyInt i)
  with assms have b: "b = of_int i" by simp
  show ?thesis
  proof (cases "round64 (of_int i)")
    case (Finite r)
    have "c \<le> r" if "is_double c" "c \<le> b" for c
      using double_le_round64 [OF that(1), of "of_int i"] that(2) Finite b by simp
    moreover from this [of 0] have "0 \<le> r" using assms(2) by simp
    ultimately show ?thesis using PyInt Finite by simp
  qed (simp_all add: PyInt)
qed

lemma to_float_double:
  assumes "value_of v = Finite b" "is_double b"
  shows "to_float v = Inr (Finite b)"
  using assms by (cases v) (auto simp add: is_double_def)

lemma float_op_float:
  "float_op f v (PyFloat y) = (case to_float v of Inl e \<Rightarrow> Inl e | Inr x \<Rightarrow> Inr (PyFloat (f x y)))"
  by (simp add: float_op_def split: sum.splits)

lemma py_add_float: "py_add v (PyFloat y) = float_op fadd v (PyFloat y)"
  by (cases v) simp_all

lemma py_sub_float: "py_sub v (PyFloat y) = float_op fsub v (PyFloat y)"
  by (cases v) simp_all

lemmas float_arith = py_add_float py_sub_float float_op_float

lemma not_negative_cases:
  assumes "\<not> flt y (Finite 0)" "y \<noteq> NaN"
  obtains "y = PInf" | c where "y = Finite c" "0 \<le> c"
  using assms by (cases y) auto

lemma fadd_nonneg:
  assumes "0 \<le> r" "\<not> flt y (Finite 0)" "y \<noteq> NaN"
  shows "fle (Finite 0) (fadd (Finite r) y)"
  using assms(2,3)
proof (cases rule: not_negative_cases)
  case 1
  then show ?thesis by simp
next
  case (2 c)
  then show ?thesis
    using double_le_round64 [of 0 "r + c"] assms(1) by simp
qed

lemma fle_not_flt: "fle x y \<Longrightarrow> \<not> flt y x"
  by (cases x; cases y) simp_all

lemma value_of_neg: "value_of (py_neg v) = fneg (value_of v)"
  by (cases v) simp_all

lemma py_add_exact:
  assumes "value_of u = Finite b" "is_double b" "value_of v = Finite l" "is_double l"
    and "is_double (b + l)"
  shows "\<exists>s. py_add u v = Inr s \<and> value_of s = Finite (b + l)"
proof (cases u)
  case (PyInt i)
  show ?thesis
  proof (cases v)
    case (PyInt j)
    with \<open>u = PyInt i\<close> assms show ?thesis by auto
  next
    case (PyFloat g)
    with \<open>u = PyInt i\<close> assms to_float_double [OF assms(1,2)] show ?thesis
      by (auto simp add: float_op_def is_double_def)
  qed
next
  case (PyFloat f)
  with assms to_float_double [OF assms(3,4)] show ?thesis
    by (auto simp add: float_op_def is_double_def)
qed

subsection \<open>The overdraft limit\<close>

lemma within_limit_iff:
  assumes "value_of (overdraftLimit p) = Finite l"
  shows "within_limit p = fle (Finite (- l)) (value_of (balance p))"
  using assms by (simp add: within_limit_def py_le_def value_of_neg)

lemma deposit_within_limit:
  assumes "value_of (balance p) = Finite b" "is_double b"
    and "value_of (overdraftLimit p) = Finite l" "is_double l"
    and "within_limit p" "py_float amt \<noteq> Inr NaN"
  shows "within_limit (after p (PremiumAccount_deposit amt p))"
proof -
  have tb: "to_float (balance p) = Inr (Finite b)"
    by (rule to_float_double [OF assms(1,2)])
  have le: "- l \<le> b"
    using assms(1,3,5) by (simp add: within_limit_iff)
  have dl: "is_double (- l)"
    using assms(4) by (simp add: is_double_minus)
  show ?thesis
  proof (cases "py_float amt")
    case (Inl e)
    with assms(5) show ?thesis
      by (simp add: PremiumAccount_deposit_def BasicAccount_deposit_def after_def within_limit_def)
  next
    case (Inr y)
    show ?thesis
    proof (cases y)
      case NaN
      with Inr assms(6) show ?thesis by simp
    next
      case NInf
      with Inr assms(5) show ?thesis
        by (simp add: PremiumAccount_deposit_def BasicAccount_deposit_def after_def within_limit_def)
    next
      case PInf
      with Inr assms(3) tb show ?thesis
        by (simp add: PremiumAccount_deposit_def BasicAccount_deposit_def after_def
            within_limit_iff float_arith Let_def)
    next
      case (Finite c)
      show ?thesis
      proof (cases "c < 0")
        case True
        with Inr Finite assms(5) show ?thesis
          by (simp add: PremiumAccount_deposit_def BasicAccount_deposit_def after_def within_limit_def)
      next
        case False
        with le have "- l \<le> b + c" by simp
        then have "fle (Finite (- l)) (round64 (b + c))"
          by (rule double_le_round64 [OF dl])
        with Inr Finite False assms(3) tb show ?thesis
          by (simp add: PremiumAccount_deposit_def BasicAccount_deposit_def after_def
              within_limit_iff float_arith Let_def)
      qed
    qed
  qed
qed

lemma withdraw_within_limit:
  assumes "value_of (balance p) = Finite b" "is_double b"
    and "value_of (overdraftLimit p) = Finite l" "is_double l"
    and "within_limit p" "py_float amt \<noteq> Inr NaN" "is_double (b + l)"
  shows "within_limit (after p (PremiumAccount_withdraw amt p))"
proof -
  have tb: "to_float (balance p) = Inr (Finite b)"
    by (rule to_float_double [OF assms(1,2)])
  have dl: "is_double (- l)"
    using assms(4) by (simp add: is_double_minus)
  obtain s where s: "py_add (balance p) (overdraftLimit p) = Inr s" "value_of s = Finite (b + l)"
    using py_add_exact [OF assms(1,2,3,4,7)] by blast
  show ?thesis
  proof (cases "py_float amt")
    case (Inl e)
    with assms(5) show ?thesis
      by (simp add: PremiumAccount_withdraw_def after_def within_limit_def)
  next
    case (Inr y)
    show ?thesis
    proof (cases y)
      case NaN
      with Inr assms(6) show ?thesis by simp
    next
      case NInf
      with Inr assms(5) show ?thesis
        by (simp add: PremiumAccount_withdraw_def after_def within_limit_def)
    next
      case PInf
      with Inr assms(5) s show ?thesis
        by (simp add: PremiumAccount_withdraw_def after_def within_limit_def py_lt_def)
    next
      case (Finite c)
      show ?thesis
      proof (cases "c < 0 \<or> b + l < c")
        case True
        with Inr Finite assms(5) s show ?thesis
          by (auto simp add: PremiumAccount_withdraw_def after_def within_limit_def py_lt_def)
      next
        case False
        then have "- l \<le> b - c" by simp
        then have "fle (Finite (- l)) (round64 (b - c))"
          by (rule double_le_round64 [OF dl])
        with Inr Finite False assms(3) tb s show ?thesis
          by (simp add: PremiumAccount_withdraw_def after_def py_lt_def
              within_limit_iff float_arith fsub_def Let_def)
      qed
    qed
  qed
qed

lemma close_within_limit:
  assumes "value_of (balance p) = Finite b" "is_double b"
    and "value_of (overdraftLimit p) = Finite l" "is_double l"
    and "within_limit p" "is_double (b + l) \<or> 0 \<le> l"
  shows "within_limit (after p (PremiumAccount_closeAccount p))"
proof (cases "overdraft p")
  case True
  with assms(5) show ?thesis
    by (simp add: PremiumAccount_closeAccount_def after_def)
next
  case False
  have tb: "to_float (balance p) = Inr (Finite b)"
    by (rule to_float_double [OF assms(1,2)])
  have red: "after p (PremiumAccount_closeAccount p)
      = after p (PremiumAccount_withdraw (Number (balance p)) p)"
    using False
    by (simp add: PremiumAccount_closeAccount_def BasicAccount_closeAccount_def after_def
        split: sum.splits prod.splits)
  show ?thesis
  proof (cases "is_double (b + l)")
    case True
    have "py_float (Number (balance p)) \<noteq> Inr NaN"
      using tb by simp
    from withdraw_within_limit [OF assms(1,2,3,4,5) this True] red show ?thesis
      by simp
  next
    case nd: False
    with assms(6) have l: "0 \<le> l" by simp
    have w0: "within_limit (p\<lparr>balance := PyFloat (Finite 0), overdraft := f\<rparr>)" for f
      using l assms(3) by (simp add: within_limit_iff)
    have w1: "within_limit (p\<lparr>balance := PyFloat (Finite 0)\<rparr>)"
      using l assms(3) by (simp add: within_limit_iff)
    show ?thesis
      unfolding red
      using assms(5) tb w0 w1
      by (auto simp add: PremiumAccount_withdraw_def after_def float_arith fsub_def Let_def
          split: sum.splits)
  qed
qed

text \<open>
  C1, as the specification states it, fails. \<open>setOverdraftLimit\<close> stores any new
  limit, so lowering the limit of an overdrawn account leaves the balance below the
  new bound: an account opened with 50 and a limit of 100 withdraws 120 and has its
  limit set to 10, and the balance is -70, below -10. The constructor stores any
  opening balance: an account opened with -200 and a limit of 100 starts below its
  bound. \<open>withdraw\<close> compares the amount with the rounded sum of balance and limit:
  an account opened with 762.28 and a limit of 2.11 is within its bound, accepts a
  withdrawal of 764.39 and is left below it. And \<open>deposit('nan')\<close> makes the balance
  not-a-number, which no bound holds of.
\<close>

theorem set_limit_breaks_invariant:
  "\<not> within_limit (premium_calls [PWithdraw (Number (PyInt 120)), PSetOverdraftLimit (PyInt 10)]
                       (snd (PremiumAccount_init 0 ''Ann'' (PyInt 50) (PyInt 100)))) \<and>
   \<not> within_limit (snd (PremiumAccount_init 0 ''Ann'' (PyInt (- 200)) (PyInt 100))) \<and>
   within_limit (snd (PremiumAccount_init 0 ''Ann'' (PyFloat (round64 (76228 / 100)))
                       (PyFloat (round64 (211 / 100))))) \<and>
   \<not> within_limit (premium_calls [PWithdraw (Text (Some (round64 (76439 / 100))))]
                       (snd (PremiumAccount_init 0 ''Ann'' (PyFloat (round64 (76228 / 100)))
                          (PyFloat (round64 (211 / 100)))))) \<and>
   \<not> within_limit (premium_calls [PDeposit (Text (Some NaN))]
                       (snd (PremiumAccount_init 0 ''Ann'' (PyInt 50) (PyInt 100))))"
  by (simp add: init_defs method_defs number_defs within_limit_def round64_small_int
        money_floats money_sum money_difference Let_def)

text \<open>
  C1, amended. Take a premium account whose balance and limit are finite floats (or
  integers that are floats) and whose balance is at least minus the limit, and an
  argument that does not convert to not-a-number. The constructor establishes
  \<open>balance \<ge> - overdraftLimit\<close> exactly when the opening balance is at least minus
  the initial limit; \<open>setOverdraftLimit\<close>, which replaces the limit with no check
  against the balance, leaves it true exactly when the balance is at least minus the
  new limit; \<open>deposit\<close> preserves it; \<open>withdraw\<close> preserves it when the sum of the
  balance and the limit is a float, so that the guard compares with the exact sum;
  \<open>closeAccount\<close> preserves it when that sum is a float or the limit is not
  negative.
\<close>

theorem overdraft_limit_preserved:
  assumes "value_of (balance p) = Finite b" and "is_double b"
    and "value_of (overdraftLimit p) = Finite l" and "is_double l"
    and "within_limit p" and "py_float amt \<noteq> Inr NaN"
  shows
   "within_limit (snd (PremiumAccount_init c n ob il)) = py_le (py_neg il) ob \<and>
    within_limit (setOverdraftLimit nl p) = py_le (py_neg nl) (balance p) \<and>
    within_limit (after p (PremiumAccount_deposit amt p)) \<and>
    (is_double (b + l) \<longrightarrow> within_limit (after p (PremiumAccount_withdraw amt p))) \<and>
    (is_double (b + l) \<or> 0 \<le> l \<longrightarrow> within_limit (after p (PremiumAccount_closeAccount p)))"
proof -
  have c1: "within_limit (snd (PremiumAccount_init c n ob il)) = py_le (py_neg il) ob"
    by (simp add: within_limit_def init_defs Let_def)
  have c2: "within_limit (setOverdraftLimit nl p) = py_le (py_neg nl) (balance p)"
    by (simp add: within_limit_def setOverdraftLimit_def)
  have c3: "within_limit (after p (PremiumAccount_deposit amt p))"
    by (rule deposit_within_limit [OF assms])
  have c4: "is_double (b + l) \<Longrightarrow> within_limit (after p (PremiumAccount_withdraw amt p))"
    by (rule withdraw_within_limit [OF assms])
  have c5: "is_double (b + l) \<or> 0 \<le> l \<Longrightarrow> within_limit (after p (PremiumAccount_closeAccount p))"
    by (rule close_within_limit [OF assms(1,2,3,4,5)])
  from c1 c2 c3 c4 c5 show ?thesis by blast
qed

theorem overdraft_limit_preserved_witness:
  "value_of (balance (snd (PremiumAccount_init 0 ''Ann'' (PyInt 50) (PyInt 100)))) = Finite 50 \<and>
   is_double 50 \<and>
   value_of (overdraftLimit (snd (PremiumAccount_init 0 ''Ann'' (PyInt 50) (PyInt 100)))) = Finite 100 \<and>
   is_double 100 \<and>
   within_limit (snd (PremiumAccount_init 0 ''Ann'' (PyInt 50) (PyInt 100))) \<and>
   py_float (Number (PyInt 120)) \<noteq> Inr NaN \<and>
   is_double (50 + 100) \<and>
   balance (after (snd (PremiumAccount_init 0 ''Ann'' (PyInt 50) (PyInt 100)))
      (PremiumAccount_withdraw (Number (PyInt 120))
         (snd (PremiumAccount_init 0 ''Ann'' (PyInt 50) (PyInt 100))))) = PyFloat (Finite (- 70)) \<and>
   within_limit (after (snd (PremiumAccount_init 0 ''Ann'' (PyInt 50) (PyInt 100)))
      (PremiumAccount_withdraw (Number (PyInt 120))
         (snd (PremiumAccount_init 0 ''Ann'' (PyInt 50) (PyInt 100))))) \<and>
   within_limit (after (snd (PremiumAccount_init 0 ''Ann'' (PyInt 50) (PyInt 100)))
      (PremiumAccount_deposit (Number (PyInt 120))
         (snd (PremiumAccount_init 0 ''Ann'' (PyInt 50) (PyInt 100))))) \<and>
   within_limit (after (snd (PremiumAccount_init 0 ''Ann'' (PyInt 50) (PyInt 100)))
      (PremiumAccount_closeAccount (snd (PremiumAccount_init 0 ''Ann'' (PyInt 50) (PyInt 100))))) \<and>
   within_limit (setOverdraftLimit (PyInt 200)
      (snd (PremiumAccount_init 0 ''Ann'' (PyInt 50) (PyInt 100))))"
proof -
  have h: "value_of (balance (snd (PremiumAccount_init 0 ''Ann'' (PyInt 50) (PyInt 100)))) = Finite 50"
    "is_double 50"
    "value_of (overdraftLimit (snd (PremiumAccount_init 0 ''Ann'' (PyInt 50) (PyInt 100)))) = Finite 100"
    "is_double 100"
    "within_limit (snd (PremiumAccount_init 0 ''Ann'' (PyInt 50) (PyInt 100)))"
    "py_float (Number (PyInt 120)) \<noteq> Inr NaN"
    by (simp_all add: init_defs within_limit_def py_le_def is_double_small_int round64_small_int Let_def)
  have s: "is_double (50 + 100)"
    by (simp add: is_double_small_int)
  have b: "balance (after (snd (PremiumAccount_init 0 ''Ann'' (PyInt 50) (PyInt 100)))
      (PremiumAccount_withdraw (Number (PyInt 120))
         (snd (PremiumAccount_init 0 ''Ann'' (PyInt 50) (PyInt 100))))) = PyFloat (Finite (- 70))"
    by (simp add: init_defs method_defs number_defs round64_small_int Let_def)
  have l: "py_le (py_neg (PyInt 200))
      (balance (snd (PremiumAccount_init 0 ''Ann'' (PyInt 50) (PyInt 100))))"
    by (simp add: init_defs py_le_def Let_def)
  show ?thesis
    using h s b l
      overdraft_limit_preserved [OF h, where c = 0 and n = "''Ann''" and ob = "PyInt 50"
        and il = "PyInt 100" and nl = "PyInt 200"]
    by blast
qed

subsection \<open>The cached overdrawn flag\<close>

text \<open>
  C2. The class documents \<open>overdraft\<close> as true exactly when the balance is negative,
  and \<open>deposit\<close> as clearing it once the overdraft is repaid; the method tests
  \<open>balance > 0.0\<close>. An account opened with 50 and a limit of 100 withdraws 120 and
  then deposits 70: the balance is exactly 0 and the flag is still set.
\<close>

theorem deposit_to_zero_keeps_flag:
  "balance (premium_calls [PWithdraw (Number (PyInt 120)), PDeposit (Number (PyInt 70))]
              (snd (PremiumAccount_init 0 ''Ann'' (PyInt 50) (PyInt 100)))) = PyFloat (Finite 0) \<and>
   overdraft (premium_calls [PWithdraw (Number (PyInt 120)), PDeposit (Number (PyInt 70))]
              (snd (PremiumAccount_init 0 ''Ann'' (PyInt 50) (PyInt 100)))) = True"
  by (simp add: init_defs method_defs number_defs round64_small_int Let_def)

text \<open>
  C10. Whatever the name, the opening balance and the initial limit, a premium
  account leaves its constructor with the opening balance stored as given and the
  flag \<open>overdraft\<close> false; when the opening balance is negative the flag therefore
  differs from \<open>balance < 0\<close>.
\<close>

theorem premium_init_flag_false:
  "overdraft (snd (PremiumAccount_init c n b l)) = False \<and>
   balance (snd (PremiumAccount_init c n b l)) = b \<and>
   (py_lt b (PyInt 0) \<longrightarrow>
      overdraft (snd (PremiumAccount_init c n b l))
        \<noteq> py_lt (balance (snd (PremiumAccount_init c n b l))) (PyInt 0))"
  by (simp add: init_defs Let_def)

theorem premium_init_flag_false_witness:
  "py_lt (PyInt (- 10)) (PyInt 0) \<and>
   overdraft (snd (PremiumAccount_init 0 ''Ann'' (PyInt (- 10)) (PyInt 100))) = False \<and>
   balance (snd (PremiumAccount_init 0 ''Ann'' (PyInt (- 10)) (PyInt 100))) = PyInt (- 10) \<and>
   overdraft (snd (PremiumAccount_init 0 ''Ann'' (PyInt (- 10)) (PyInt 100)))
     \<noteq> py_lt (balance (snd (PremiumAccount_init 0 ''Ann'' (PyInt (- 10)) (PyInt 100)))) (PyInt 0)"
  using premium_init_flag_false [of 0 "''Ann''" "PyInt (- 10)" "PyInt 100"]
  by (simp add: py_lt_def)

subsection \<open>The balance of a basic account\<close>

lemma deposit_nonneg:
  assumes "value_of (balance a) = Finite b" "0 \<le> b" "py_float amt \<noteq> Inr NaN"
  shows "py_le (PyInt 0) (balance (after a (BasicAccount_deposit amt a)))"
proof (cases "py_float amt")
  case (Inl e)
  with assms show ?thesis
    by (simp add: BasicAccount_deposit_def after_def py_le_def)
next
  case (Inr y)
  with assms(3) have y: "y \<noteq> NaN" by simp
  show ?thesis
  proof (cases "flt y (Finite 0)")
    case True
    with Inr assms show ?thesis
      by (simp add: BasicAccount_deposit_def after_def py_le_def)
  next
    case False
    from to_float_nonneg [OF assms(1,2)] show ?thesis
    proof
      assume "to_float (balance a) = Inl OverflowError"
      with Inr False assms show ?thesis
        by (simp add: BasicAccount_deposit_def after_def py_le_def float_arith)
    next
      assume "\<exists>r. to_float (balance a) = Inr (Finite r) \<and> 0 \<le> r \<and>
                (\<forall>c. is_double c \<longrightarrow> c \<le> b \<longrightarrow> c \<le> r)"
      then obtain r where r: "to_float (balance a) = Inr (Finite r)" "0 \<le> r" by blast
      with Inr False fadd_nonneg [OF r(2) False y] show ?thesis
        by (simp add: BasicAccount_deposit_def after_def py_le_def float_arith Let_def)
    qed
  qed
qed

lemma withdraw_nonneg:
  assumes "value_of (balance a) = Finite b" "0 \<le> b" "py_float amt \<noteq> Inr NaN"
    and "float_argument amt \<or> py_float amt = to_float (balance a)"
  shows "py_le (PyInt 0) (balance (after a (BasicAccount_withdraw amt a)))"
proof (cases "py_float amt")
  case (Inl e)
  with assms show ?thesis
    by (simp add: BasicAccount_withdraw_def after_def py_le_def)
next
  case (Inr y)
  with assms(3) have y: "y \<noteq> NaN" by simp
  show ?thesis
  proof (cases "flt y (Finite 0) \<or> py_lt (balance a) (PyFloat y)")
    case True
    with Inr assms show ?thesis
      by (auto simp add: BasicAccount_withdraw_def after_def py_le_def)
  next
    case False
    then have nn: "\<not> flt y (Finite 0)" and le: "\<not> flt (Finite b) y"
      using assms(1) by (simp_all add: py_lt_def)
    from nn y le obtain c where c: "y = Finite c" "0 \<le> c" "c \<le> b"
      by (cases rule: not_negative_cases) auto
    from to_float_nonneg [OF assms(1,2)] show ?thesis
    proof
      assume "to_float (balance a) = Inl OverflowError"
      with Inr False assms show ?thesis
        by (simp add: BasicAccount_withdraw_def after_def py_le_def float_arith)
    next
      assume "\<exists>r. to_float (balance a) = Inr (Finite r) \<and> 0 \<le> r \<and>
                (\<forall>c. is_double c \<longrightarrow> c \<le> b \<longrightarrow> c \<le> r)"
      then obtain r where r: "to_float (balance a) = Inr (Finite r)" "0 \<le> r"
        "\<forall>c. is_double c \<longrightarrow> c \<le> b \<longrightarrow> c \<le> r" by blast
      have "c \<le> r"
        using assms(4)
      proof
        assume "float_argument amt"
        have "is_double c"
        proof (cases amt)
          case (Number n)
          show ?thesis
          proof (cases n)
            case (PyInt i)
            with Number Inr c show ?thesis
              by (auto intro: round64_closed split: pyfloat.splits)
          next
            case (PyFloat f)
            with Number Inr c \<open>float_argument amt\<close> show ?thesis by simp
          qed
        next
          case (Text t)
          with Inr c \<open>float_argument amt\<close> show ?thesis by (cases t) simp_all
        next
          case NoNumber
          with Inr show ?thesis by simp
        qed
        with r(3) c(3) show ?thesis by blast
      next
        assume "py_float amt = to_float (balance a)"
        with Inr r(1) c(1) show ?thesis by simp
      qed
      then have "fle (Finite 0) (round64 (r - c))"
        using double_le_round64 [of 0 "r - c"] by simp
      with Inr False r(1) c(1) show ?thesis
        by (simp add: BasicAccount_withdraw_def after_def py_le_def float_arith fsub_def Let_def)
    qed
  qed
qed

lemma close_nonneg:
  assumes "value_of (balance a) = Finite b" "0 \<le> b"
  shows "py_le (PyInt 0) (balance (after a (closeAccount a)))"
proof -
  have nan: "py_float (Number (balance a)) \<noteq> Inr NaN"
    using to_float_nonneg [OF assms] by auto
  have "py_le (PyInt 0) (balance (after a (BasicAccount_withdraw (Number (balance a)) a)))"
    using assms nan by (rule withdraw_nonneg) simp
  then show ?thesis
    by (cases "BasicAccount_withdraw (Number (balance a)) a")
       (auto simp add: closeAccount_def BasicAccount_closeAccount_def after_def)
qed

text \<open>
  C3, as the specification states it, fails: it puts no condition on the balance
  before the operation, and the constructor stores any opening balance. An account
  opened with -5 has balance -4 after a deposit of 1. From a balance that is not
  negative, \<open>deposit('nan')\<close> leaves not-a-number, and closing an account whose
  balance is infinite leaves \<open>inf - inf\<close>, not-a-number again.
\<close>

theorem negative_opening_balance_stays:
  "\<not> py_le (PyInt 0)
       (balance (after (snd (BasicAccount_init 0 ''Bob'' (PyInt (- 5))))
          (BasicAccount_deposit (Number (PyInt 1)) (snd (BasicAccount_init 0 ''Bob'' (PyInt (- 5))))))) \<and>
   balance (after (snd (BasicAccount_init 0 ''Bob'' (PyInt (- 5))))
          (BasicAccount_deposit (Number (PyInt 1)) (snd (BasicAccount_init 0 ''Bob'' (PyInt (- 5))))))
     = PyFloat (Finite (- 4)) \<and>
   \<not> py_le (PyInt 0)
       (balance (after (snd (BasicAccount_init 0 ''Ann'' (PyInt 100)))
          (BasicAccount_deposit (Text (Some NaN)) (snd (BasicAccount_init 0 ''Ann'' (PyInt 100)))))) \<and>
   \<not> py_le (PyInt 0)
       (balance (after (snd (BasicAccount_init 0 ''Cy'' (PyFloat PInf)))
          (closeAccount (snd (BasicAccount_init 0 ''Cy'' (PyFloat PInf))))))"
  by (simp add: init_defs method_defs number_defs round64_small_int Let_def)

text \<open>
  C3, amended. The constructor of a basic account stores the opening balance as
  given. On a basic account whose balance is finite and not negative, \<open>deposit\<close>
  and \<open>withdraw\<close> of any argument that does not convert to not-a-number, and
  \<open>closeAccount\<close>, leave a balance that is not negative.
\<close>

theorem basic_balance_stays_nonneg:
  assumes "value_of (balance a) = Finite b" and "0 \<le> b"
    and "float_argument amt" and "py_float amt \<noteq> Inr NaN"
  shows
   "balance (snd (BasicAccount_init c n ob)) = ob \<and>
    py_le (PyInt 0) (balance (after a (BasicAccount_deposit amt a))) \<and>
    py_le (PyInt 0) (balance (after a (BasicAccount_withdraw amt a))) \<and>
    py_le (PyInt 0) (balance (after a (closeAccount a)))"
proof -
  have "balance (snd (BasicAccount_init c n ob)) = ob"
    by (simp add: init_defs Let_def)
  moreover have "py_le (PyInt 0) (balance (after a (BasicAccount_deposit amt a)))"
    using assms(1,2,4) by (rule deposit_nonneg)
  moreover have "py_le (PyInt 0) (balance (after a (BasicAccount_withdraw amt a)))"
    using assms(1,2,4) by (rule withdraw_nonneg) (simp add: assms(3))
  moreover have "py_le (PyInt 0) (balance (after a (closeAccount a)))"
    using assms(1,2) by (rule close_nonneg)
  ultimately show ?thesis by simp
qed

theorem basic_balance_stays_nonneg_witness:
  "value_of (balance (snd (BasicAccount_init 0 ''Ann'' (PyInt 100)))) = Finite 100 \<and>
   (0::real) \<le> 100 \<and>
   float_argument (Number (PyInt 30)) \<and>
   py_float (Number (PyInt 30)) \<noteq> Inr NaN \<and>
   py_le (PyInt 0) (balance (after (snd (BasicAccount_init 0 ''Ann'' (PyInt 100)))
      (BasicAccount_deposit (Number (PyInt 30)) (snd (BasicAccount_init 0 ''Ann'' (PyInt 100)))))) \<and>
   balance (after (snd (BasicAccount_init 0 ''Ann'' (PyInt 100)))
      (BasicAccount_withdraw (Number (PyInt 30)) (snd (BasicAccount_init 0 ''Ann'' (PyInt 100)))))
     = PyFloat (Finite 70) \<and>
   py_le (PyInt 0) (balance (after (snd (BasicAccount_init 0 ''Ann'' (PyInt 100)))
      (closeAccount (snd (BasicAccount_init 0 ''Ann'' (PyInt 100))))))"
proof -
  have h: "value_of (balance (snd (BasicAccount_init 0 ''Ann'' (PyInt 100)))) = Finite 100"
    "(0::real) \<le> 100" "float_argument (Number (PyInt 30))"
    "py_float (Number (PyInt 30)) \<noteq> Inr NaN"
    by (simp_all add: init_defs Let_def round64_small_int)
  have w: "balance (after (snd (BasicAccount_init 0 ''Ann'' (PyInt 100)))
      (BasicAccount_withdraw (Number (PyInt 30)) (snd (BasicAccount_init 0 ''Ann'' (PyInt 100)))))
     = PyFloat (Finite 70)"
    by (simp add: init_defs method_defs number_defs round64_small_int Let_def)
  show ?thesis
    using h w basic_balance_stays_nonneg [OF h, of 0 "''Ann''" "PyInt 100"]
    by blast
qed

subsection \<open>Withdrawals\<close>




subsection \<open>Arguments that are not amounts\<close>

text \<open>
  C5. The methods guard their argument with \<open>float\<close> inside
  \<open>try ... except ValueError\<close> and a test \<open>flt_amount < 0.0\<close>, under the comment
  that this ensures a positive float or integer. An argument that \<open>float\<close> has no
  conversion for, such as \<open>None\<close>, leaves all four methods with \<open>TypeError\<close>; the
  text \<open>'nan'\<close> passes both tests and is added to, or subtracted from, the balance,
  which becomes not-a-number; the negative integer \<open>- (10 ** 400)\<close> leaves all four
  methods with \<open>OverflowError\<close>.
\<close>

theorem unguarded_arguments:
  "BasicAccount_deposit NoNumber a = Inl TypeError \<and>
   BasicAccount_withdraw NoNumber a = Inl TypeError \<and>
   PremiumAccount_deposit NoNumber p = Inl TypeError \<and>
   PremiumAccount_withdraw NoNumber p = Inl TypeError \<and>
   BasicAccount_deposit (Text (Some NaN)) (snd (BasicAccount_init 0 ''Ann'' (PyInt 100)))
     = Inr ((snd (BasicAccount_init 0 ''Ann'' (PyInt 100)))\<lparr>balance := PyFloat NaN\<rparr>,
            [New_balance (PyFloat NaN)]) \<and>
   BasicAccount_withdraw (Text (Some NaN)) (snd (BasicAccount_init 0 ''Ann'' (PyInt 100)))
     = Inr ((snd (BasicAccount_init 0 ''Ann'' (PyInt 100)))\<lparr>balance := PyFloat NaN\<rparr>,
            [Has_withdrawn ''Ann'' NaN (PyFloat NaN)]) \<and>
   PremiumAccount_withdraw (Text (Some NaN)) (snd (PremiumAccount_init 0 ''Ann'' (PyInt 50) (PyInt 100)))
     = Inr ((snd (PremiumAccount_init 0 ''Ann'' (PyInt 50) (PyInt 100)))\<lparr>balance := PyFloat NaN\<rparr>,
            [Has_withdrawn ''Ann'' NaN (PyFloat NaN)]) \<and>
   BasicAccount_deposit (Number (PyInt (- (10 ^ 400)))) a = Inl OverflowError \<and>
   BasicAccount_withdraw (Number (PyInt (- (10 ^ 400)))) a = Inl OverflowError \<and>
   PremiumAccount_deposit (Number (PyInt (- (10 ^ 400)))) p = Inl OverflowError \<and>
   PremiumAccount_withdraw (Number (PyInt (- (10 ^ 400)))) p = Inl OverflowError"
  by (simp add: init_defs method_defs number_defs round64_small_int round64_overflow Let_def)

text \<open>
  Text that \<open>float\<close> rejects with \<open>ValueError\<close>, and every argument it converts to
  a negative float, is refused with the account as it was. \<open>PremiumAccount.deposit\<close>
  tests the flag again after the refusal, hence the condition on the last part.
\<close>

lemma rejected_amounts:
  assumes "py_float amt = Inl ValueError \<or> (\<exists>x. py_float amt = Inr x \<and> flt x (Finite 0))"
  shows "BasicAccount_deposit amt a
           = Inr (a, [if py_float amt = Inl ValueError then Not_a_number else Negative_input])"
    and "BasicAccount_withdraw amt a
           = Inr (a, [if py_float amt = Inl ValueError then Not_a_number else Negative_input])"
    and "PremiumAccount_withdraw amt p
           = Inr (p, [if py_float amt = Inl ValueError then Not_a_number else Negative_input])"
    and "\<not> (overdraft p \<and> py_lt (PyFloat (Finite 0)) (balance p)) \<Longrightarrow>
         PremiumAccount_deposit amt p
           = Inr (p, [if py_float amt = Inl ValueError then Not_a_number else Negative_input])"
  using assms
  by (auto simp add: BasicAccount_deposit_def BasicAccount_withdraw_def
        PremiumAccount_withdraw_def PremiumAccount_deposit_def)

subsection \<open>Deposit, then withdraw the same amount\<close>

lemma deposit_exact:
  assumes "value_of (balance a) = Finite b" "is_double b"
    and "py_float amt = Inr (Finite x)" "0 \<le> x" "is_double (b + x)"
  shows "BasicAccount_deposit amt a
     = Inr (a\<lparr>balance := PyFloat (Finite (b + x))\<rparr>, [New_balance (PyFloat (Finite (b + x)))])"
  using assms to_float_double [OF assms(1,2)]
  by (simp add: BasicAccount_deposit_def float_arith is_double_def Let_def)

lemma withdraw_back:
  assumes "balance a = PyFloat (Finite (b + x))" "is_double b"
    and "py_float amt = Inr (Finite x)" "0 \<le> x" "x \<le> b + x"
  shows "BasicAccount_withdraw amt a
     = Inr (a\<lparr>balance := PyFloat (Finite b)\<rparr>, [Has_withdrawn (name a) (Finite x) (PyFloat (Finite b))])"
  using assms
  by (simp add: BasicAccount_withdraw_def float_arith py_lt_def fsub_def is_double_def Let_def)

text \<open>
  C6, as the specification states it, fails: the deposit rounds. An account with
  balance \<open>2 ^ 53\<close> deposits 1: the sum \<open>2 ^ 53 + 1\<close> is not a float and rounds to
  \<open>2 ^ 53\<close>, so the balance does not move; the available balance is \<open>2 ^ 53\<close>, at
  least 1; the withdrawal of 1 then leaves \<open>2 ^ 53 - 1\<close>.
\<close>

theorem round_trip_loses_a_unit:
  "is_double (2 ^ 53) \<and>
   balance (basic_calls [Deposit (Number (PyInt 1))]
              (snd (BasicAccount_init 0 ''Ann'' (PyFloat (Finite (2 ^ 53))))))
     = PyFloat (Finite (2 ^ 53)) \<and>
   BasicAccount_getAvailableBalance
       (basic_calls [Deposit (Number (PyInt 1))]
          (snd (BasicAccount_init 0 ''Ann'' (PyFloat (Finite (2 ^ 53))))))
     = Inr (Finite (2 ^ 53)) \<and>
   fle (Finite 1) (Finite (2 ^ 53)) \<and>
   balance (basic_calls [Deposit (Number (PyInt 1)), Withdraw (Number (PyInt 1))]
              (snd (BasicAccount_init 0 ''Ann'' (PyFloat (Finite (2 ^ 53))))))
     = PyFloat (Finite (2 ^ 53 - 1)) \<and>
   balance (basic_calls [Deposit (Number (PyInt 1)), Withdraw (Number (PyInt 1))]
              (snd (BasicAccount_init 0 ''Ann'' (PyFloat (Finite (2 ^ 53))))))
     \<noteq> balance (snd (BasicAccount_init 0 ''Ann'' (PyFloat (Finite (2 ^ 53)))))"
  by (simp add: init_defs method_defs number_defs BasicAccount_getAvailableBalance_def
        round64_small_int round_2_53_1 is_double_small_int Let_def)

text \<open>
  C6, amended. Take an account of either class whose balance is a finite float, and an
  argument that \<open>float\<close> converts to a finite \<open>x\<close>, not negative, such that the
  exact sum of balance and \<open>x\<close> is a float. If, after the deposit,
  \<open>getAvailableBalance\<close> returns a value that \<open>x\<close> does not exceed, then the
  withdrawal of the same argument returns the balance to its value before the
  deposit.
\<close>

theorem round_trip_when_sum_exact:
  assumes "value_of (balance a) = Finite b" and "is_double b"
    and "value_of (balance p) = Finite b'" and "is_double b'"
    and "py_float amt = Inr (Finite x)" and "0 \<le> x"
    and "is_double (b + x)" and "is_double (b' + x)"
  shows
   "(BasicAccount_getAvailableBalance (after a (BasicAccount_deposit amt a)) = Inr v \<longrightarrow>
       fle (Finite x) v \<longrightarrow>
       value_of (balance (after (after a (BasicAccount_deposit amt a))
            (BasicAccount_withdraw amt (after a (BasicAccount_deposit amt a)))))
         = value_of (balance a)) \<and>
    (PremiumAccount_getAvailableBalance (after p (PremiumAccount_deposit amt p)) = Inr w \<longrightarrow>
       py_le (PyFloat (Finite x)) w \<longrightarrow>
       value_of (balance (after (after p (PremiumAccount_deposit amt p))
            (PremiumAccount_withdraw amt (after p (PremiumAccount_deposit amt p)))))
         = value_of (balance p))"
proof -
  define a1 where "a1 = after a (BasicAccount_deposit amt a)"
  have a1: "a1 = a\<lparr>balance := PyFloat (Finite (b + x))\<rparr>"
    using deposit_exact [OF assms(1,2,5,6,7)] by (simp add: a1_def after_def)
  have basic: "value_of (balance (after a1 (BasicAccount_withdraw amt a1))) = value_of (balance a)"
    if "BasicAccount_getAvailableBalance a1 = Inr v" "fle (Finite x) v"
  proof -
    from that a1 have "0 \<le> b"
      by (auto simp add: BasicAccount_getAvailableBalance_def)
    then have "x \<le> b + x" by simp
    with withdraw_back [of a1 b x amt] a1 assms show ?thesis
      by (simp add: after_def)
  qed
  define p1 where "p1 = after p (PremiumAccount_deposit amt p)"
  have dp: "BasicAccount_deposit amt p
     = Inr (p\<lparr>balance := PyFloat (Finite (b' + x))\<rparr>, [New_balance (PyFloat (Finite (b' + x)))])"
    by (rule deposit_exact [OF assms(3,4,5,6,8)])
  have p1: "balance p1 = PyFloat (Finite (b' + x))" "overdraftLimit p1 = overdraftLimit p"
    by (simp_all add: p1_def PremiumAccount_deposit_def dp after_def)
  have premium: "value_of (balance (after p1 (PremiumAccount_withdraw amt p1))) = value_of (balance p)"
    if "PremiumAccount_getAvailableBalance p1 = Inr w" "py_le (PyFloat (Finite x)) w"
  proof -
    from that(1) p1 have s: "py_add (balance p1) (overdraftLimit p1) = Inr w"
      by (simp add: PremiumAccount_getAvailableBalance_def BasicAccount_getAvailableBalance_def)
    have "\<not> py_lt w (PyFloat (Finite x))"
      using that(2) by (simp add: py_lt_def py_le_def fle_not_flt)
    with s p1 assms show ?thesis
      by (simp add: PremiumAccount_withdraw_def after_def float_arith fsub_def is_double_def Let_def)
  qed
  from basic premium show ?thesis
    unfolding a1_def p1_def by blast
qed

theorem round_trip_when_sum_exact_witness:
  "value_of (balance (snd (BasicAccount_init 0 ''Ann'' (PyInt 100)))) = Finite 100 \<and>
   is_double 100 \<and>
   value_of (balance (snd (PremiumAccount_init 0 ''Bob'' (PyInt 50) (PyInt 100)))) = Finite 50 \<and>
   is_double 50 \<and>
   py_float (Number (PyInt 30)) = Inr (Finite 30) \<and> (0::real) \<le> 30 \<and>
   is_double (100 + 30) \<and> is_double (50 + 30) \<and>
   BasicAccount_getAvailableBalance
       (after (snd (BasicAccount_init 0 ''Ann'' (PyInt 100)))
          (BasicAccount_deposit (Number (PyInt 30)) (snd (BasicAccount_init 0 ''Ann'' (PyInt 100)))))
     = Inr (Finite 130) \<and>
   fle (Finite 30) (Finite 130) \<and>
   value_of (balance (after (after (snd (BasicAccount_init 0 ''Ann'' (PyInt 100)))
          (BasicAccount_deposit (Number (PyInt 30)) (snd (BasicAccount_init 0 ''Ann'' (PyInt 100)))))
        (BasicAccount_withdraw (Number (PyInt 30))
          (after (snd (BasicAccount_init 0 ''Ann'' (PyInt 100)))
            (BasicAccount_deposit (Number (PyInt 30)) (snd (BasicAccount_init 0 ''Ann'' (PyInt 100))))))))
     = Finite 100 \<and>
   PremiumAccount_getAvailableBalance
       (after (snd (PremiumAccount_init 0 ''Bob'' (PyInt 50) (PyInt 100)))
          (PremiumAccount_deposit (Number (PyInt 30))
             (snd (PremiumAccount_init 0 ''Bob'' (PyInt 50) (PyInt 100)))))
     = Inr (PyFloat (Finite 180)) \<and>
   py_le (PyFloat (Finite 30)) (PyFloat (Finite 180)) \<and>
   value_of (balance (after (after (snd (PremiumAccount_init 0 ''Bob'' (PyInt 50) (PyInt 100)))
          (PremiumAccount_deposit (Number (PyInt 30))
             (snd (PremiumAccount_init 0 ''Bob'' (PyInt 50) (PyInt 100)))))
        (PremiumAccount_withdraw (Number (PyInt 30))
          (after (snd (PremiumAccount_init 0 ''Bob'' (PyInt 50) (PyInt 100)))
            (PremiumAccount_deposit (Number (PyInt 30))
               (snd (PremiumAccount_init 0 ''Bob'' (PyInt 50) (PyInt 100))))))))
     = Finite 50"
proof -
  have h: "value_of (balance (snd (BasicAccount_init 0 ''Ann'' (PyInt 100)))) = Finite 100"
    "is_double 100"
    "value_of (balance (snd (PremiumAccount_init 0 ''Bob'' (PyInt 50) (PyInt 100)))) = Finite 50"
    "is_double 50"
    "py_float (Number (PyInt 30)) = Inr (Finite 30)" "(0::real) \<le> 30"
    "is_double (100 + 30)" "is_double (50 + 30)"
    by (simp_all add: init_defs is_double_small_int round64_small_int Let_def)
  have g: "BasicAccount_getAvailableBalance
       (after (snd (BasicAccount_init 0 ''Ann'' (PyInt 100)))
          (BasicAccount_deposit (Number (PyInt 30)) (snd (BasicAccount_init 0 ''Ann'' (PyInt 100)))))
     = Inr (Finite 130)"
    "fle (Finite 30) (Finite 130)"
    "PremiumAccount_getAvailableBalance
       (after (snd (PremiumAccount_init 0 ''Bob'' (PyInt 50) (PyInt 100)))
          (PremiumAccount_deposit (Number (PyInt 30))
             (snd (PremiumAccount_init 0 ''Bob'' (PyInt 50) (PyInt 100)))))
     = Inr (PyFloat (Finite 180))"
    "py_le (PyFloat (Finite 30)) (PyFloat (Finite 180))"
    by (simp_all add: init_defs method_defs number_defs BasicAccount_getAvailableBalance_def
          PremiumAccount_getAvailableBalance_def round64_small_int Let_def)
  show ?thesis
    using h g round_trip_when_sum_exact [OF h, where v = "Finite 130" and w = "PyFloat (Finite 180)"]
    by simp
qed

subsection \<open>Closing an account\<close>

text \<open>
  C9. \<open>PremiumAccount.closeAccount\<close> documents that it returns \<open>True\<close> for an
  account in good standing, by running the method of the parent class; it calls that
  method and drops its result, so the caller gets \<open>None\<close>: an account opened with 50
  and a limit of 100 is emptied and closed, and the call returns \<open>None\<close>. It also
  documents the refusal for an account with a negative balance, and tests the cached
  flag: an account opened with -10 has the flag clear, so the closing withdrawal runs,
  is rejected as a negative amount, the balance stays -10 and \<open>Closing account.\<close>
  is printed. \<open>BasicAccount.closeAccount\<close> documents that it withdraws the
  remaining balance: with the integer balance \<open>2 ^ 53 + 3\<close> the amount converts to
  \<open>2 ^ 53 + 4\<close>, the withdrawal is refused, and the method still returns \<open>True\<close>.
\<close>

theorem premium_close_returns_none:
  "PremiumAccount_closeAccount (snd (PremiumAccount_init 0 ''Ann'' (PyInt 50) (PyInt 100)))
     = Inr ((snd (PremiumAccount_init 0 ''Ann'' (PyInt 50) (PyInt 100)))\<lparr>balance := PyFloat (Finite 0)\<rparr>,
            [Has_withdrawn ''Ann'' (Finite 50) (PyFloat (Finite 0)), Closing_account], None) \<and>
   py_lt (balance (snd (PremiumAccount_init 0 ''Ann'' (PyInt (- 10)) (PyInt 100)))) (PyInt 0) \<and>
   PremiumAccount_closeAccount (snd (PremiumAccount_init 0 ''Ann'' (PyInt (- 10)) (PyInt 100)))
     = Inr (snd (PremiumAccount_init 0 ''Ann'' (PyInt (- 10)) (PyInt 100)),
            [Negative_input, Closing_account], None) \<and>
   closeAccount (snd (BasicAccount_init 0 ''Cy'' (PyInt (2 ^ 53 + 3))))
     = Inr (snd (BasicAccount_init 0 ''Cy'' (PyInt (2 ^ 53 + 3))),
            [Can_not_withdraw (Finite (2 ^ 53 + 4)), Closing_account], Some True)"
  by (simp add: init_defs method_defs number_defs round64_small_int round_2_53_3 Let_def)

text \<open>With the flag set the method refuses, returns \<open>False\<close> and changes nothing.\<close>

lemma close_refused_when_flagged:
  "overdraft p \<Longrightarrow>
   PremiumAccount_closeAccount p = Inr (p, [Can_not_close (balance p)], Some False)"
  by (simp add: PremiumAccount_closeAccount_def)

subsection \<open>Account numbers\<close>

lemma create_number: "fst (create c r) = c + 1 \<and> number_of (snd (create c r)) = c + 1"
  by (cases r) (simp_all add: init_defs Let_def)

lemma create_all_numbers:
  "fst (create_all c rs) = c + int (length rs) \<and>
   map number_of (snd (create_all c rs)) = [c + 1 .. c + int (length rs)]"
proof (induction rs arbitrary: c)
  case Nil
  show ?case by simp
next
  case (Cons r rs)
  have step: "fst (create c r) = c + 1" "number_of (snd (create c r)) = c + 1"
    using create_number [of c r] by simp_all
  have ih: "fst (create_all (c + 1) rs) = c + 1 + int (length rs)"
    "map number_of (snd (create_all (c + 1) rs)) = [c + 1 + 1 .. c + 1 + int (length rs)]"
    using Cons.IH [of "c + 1"] by simp_all
  have e: "c + int (length (r # rs)) = c + 1 + int (length rs)" by simp
  have u: "[c + 1 .. c + 1 + int (length rs)] = (c + 1) # [c + 1 + 1 .. c + 1 + int (length rs)]"
    by (rule upto_rec1) simp
  show ?case
    unfolding e u using step ih by (simp add: split_beta Let_def)
qed

text \<open>
  C7. Each construction, basic or premium, adds exactly one to the shared counter.
  After any list of constructions started with the counter at \<open>c\<close>, the counter is
  \<open>c\<close> plus the number of accounts created, and the account numbers, in creation
  order, are \<open>c + 1\<close>, \<open>c + 2\<close>, ...: strictly increasing and pairwise distinct.
\<close>

theorem account_numbers_increase:
  "fst (create c r) = c + 1 \<and>
   fst (create_all c rs) = c + int (length rs) \<and>
   map number_of (snd (create_all c rs)) = [c + 1 .. c + int (length rs)] \<and>
   sorted_wrt (<) (map number_of (snd (create_all c rs))) \<and>
   distinct (map number_of (snd (create_all c rs)))"
  using create_number [of c r] create_all_numbers [of c rs]
  by (simp add: sorted_wrt_upto)

theorem account_numbers_increase_witness:
  "fst (create_all 0 [NewBasic ''Ann'' (PyInt 100), NewPremium ''Bob'' (PyInt 50) (PyInt 100), NewBasic ''Cy'' (PyInt 0)]) = 3 \<and>
   map number_of
     (snd (create_all 0 [NewBasic ''Ann'' (PyInt 100), NewPremium ''Bob'' (PyInt 50) (PyInt 100), NewBasic ''Cy'' (PyInt 0)]))
     = [1, 2, 3]"
  using account_numbers_increase [of 0 "NewBasic ''Ann'' (PyInt 100)"
      "[NewBasic ''Ann'' (PyInt 100), NewPremium ''Bob'' (PyInt 50) (PyInt 100), NewBasic ''Cy'' (PyInt 0)]"]
  by (simp add: init_defs Let_def)

subsection \<open>The card number and its expiry\<close>

lemma card_digits_eq:
  "card_digits k rnd acc = (acc @ concat (map str_int (stake k rnd)), sdrop k rnd)"
  by (induction k arbitrary: rnd acc) (simp_all add: Let_def)

lemma digit_cases:
  assumes "d < (10::nat)"
  obtains "d = 0" | "d = 1" | "d = 2" | "d = 3" | "d = 4"
    | "d = 5" | "d = 6" | "d = 7" | "d = 8" | "d = 9"
  using assms by atomize_elim arith

lemma digit_char_is_digit: "d < 10 \<Longrightarrow> digit_char d \<in> set ''0123456789''"
  by (erule digit_cases) (simp_all add: digit_char_def)

lemma digit_value_digit_char: "d < 10 \<Longrightarrow> digit_value (digit_char d) = Some (int d)"
  by (erule digit_cases) (simp_all add: digit_char_def digit_value_def)

lemma str_int_digit:
  assumes "0 \<le> d" "d \<le> 9"
  shows "str_int d = [digit_char (nat d)]"
proof -
  have "nat d < 10" using assms by linarith
  then show ?thesis
    using assms by (simp add: str_int_def str_nat.simps [of "nat d"])
qed

lemma card_number_digits:
  assumes "list_all (\<lambda>d. 0 \<le> d \<and> d \<le> 9) ds"
  shows "length (concat (map str_int ds)) = length ds \<and>
         list_all (\<lambda>c. c \<in> set ''0123456789'') (concat (map str_int ds))"
  using assms
proof (induction ds)
  case Nil
  show ?case by simp
next
  case (Cons d ds)
  then have d: "0 \<le> d" "d \<le> 9" and rest: "list_all (\<lambda>d. 0 \<le> d \<and> d \<le> 9) ds"
    by simp_all
  have "nat d < 10" using d by simp
  then have "digit_char (nat d) \<in> set ''0123456789''" by (rule digit_char_is_digit)
  with Cons.IH [OF rest] str_int_digit [OF d] show ?case
    by simp
qed

lemma str_nat_4:
  assumes "1000 \<le> k" "k < 10000"
  shows "str_nat k = [digit_char (k div 1000), digit_char (k div 100 mod 10),
                      digit_char (k div 10 mod 10), digit_char (k mod 10)]"
proof -
  have a: "\<not> k < 10" "\<not> k div 10 < 10" "\<not> k div 100 < 10" "k div 1000 < 10"
    using assms by simp_all
  have d: "k div 10 div 10 = k div 100" "k div 100 div 10 = k div 1000"
    by (simp_all add: div_mult2_eq [symmetric])
  have "str_nat (k div 1000) = [digit_char (k div 1000)]"
    using a by (simp add: str_nat.simps [of "k div 1000"])
  then have "str_nat (k div 100) = [digit_char (k div 1000), digit_char (k div 100 mod 10)]"
    using a d by (simp add: str_nat.simps [of "k div 100"])
  then have "str_nat (k div 10) = [digit_char (k div 1000), digit_char (k div 100 mod 10),
                                   digit_char (k div 10 mod 10)]"
    using a d by (simp add: str_nat.simps [of "k div 10"])
  then show ?thesis
    using a by (simp add: str_nat.simps [of k])
qed

lemma two_digits_value:
  fixes k :: nat
  shows "digits_value [digit_char (k div 10 mod 10), digit_char (k mod 10)] 0
           = Inr (int k mod 100)"
proof -
  have lt: "k div 10 mod 10 < 10" "k mod 10 < 10" by simp_all
  have e: "k mod 100 = 10 * (k div 10 mod 10) + k mod 10"
    using mod_mult2_eq [of k 10 10] by simp
  have "int k mod 100 = int (k mod 100)"
    by (simp add: zmod_int)
  also have "\<dots> = int (10 * (k div 10 mod 10) + k mod 10)"
    by (simp only: e)
  also have "\<dots> = 10 * int (k div 10 mod 10) + int (k mod 10)"
    by simp
  finally show ?thesis
    by (simp add: digit_value_digit_char [OF lt(1)] digit_value_digit_char [OF lt(2)])
qed

lemma str_nat_5:
  "str_nat 10000 = ''10000''" "str_nat 10001 = ''10001''" "str_nat 10002 = ''10002''"
proof -
  have "str_nat 1000 = ''1000''"
    using str_nat_4 [of 1000] by (simp add: digit_char_def)
  then show "str_nat 10000 = ''10000''" "str_nat 10001 = ''10001''" "str_nat 10002 = ''10002''"
    by (simp_all add: str_nat.simps [of 10000] str_nat.simps [of 10001]
         str_nat.simps [of 10002] digit_char_def)
qed

lemma two_digit_year:
  assumes "1000 \<le> n" "n \<le> 10002"
  shows "py_int (drop 2 (str_int n)) = Inr (n mod 100)"
proof (cases "n < 10000")
  case True
  define k where "k = nat n"
  have k: "1000 \<le> k" "k < 10000" "n = int k"
    using assms True by (simp_all add: k_def)
  have "str_int n = str_nat k"
    using k by (simp add: str_int_def)
  then have "drop 2 (str_int n) = [digit_char (k div 10 mod 10), digit_char (k mod 10)]"
    using str_nat_4 [OF k(1,2)] by simp
  then show ?thesis
    using two_digits_value [of k] k(3) by (simp add: py_int_def)
next
  case False
  then consider "n = 10000" | "n = 10001" | "n = 10002"
    using assms by linarith
  then show ?thesis
  proof cases
    case 1
    then show ?thesis
      by (simp add: str_int_def str_nat_5 py_int_def digit_value_def)
  next
    case 2
    then show ?thesis
      by (simp add: str_int_def str_nat_5 py_int_def digit_value_def)
  next
    case 3
    then show ?thesis
      by (simp add: str_int_def str_nat_5 py_int_def digit_value_def)
  qed
qed

text \<open>
  C8. The random source yields the values of \<open>random.randint(0, 9)\<close>, so the sixteen
  values drawn lie between 0 and 9; the clock reports a year from 997 to 9999 (the
  last year \<open>datetime\<close> has), so that the year plus three has four digits or is one
  of 10000, 10001, 10002. Then \<open>issueNewCard\<close> succeeds on every account, the card
  number is the sixteen numerals drawn, a string of exactly 16 characters that are all
  decimal digits, the expiry is the month read and the year plus three modulo 100,
  and whatever card the account held before is replaced.
\<close>

theorem issue_new_card:
  assumes "list_all (\<lambda>d. 0 \<le> d \<and> d \<le> 9) (stake 16 rnd)"
    and "997 \<le> year_now" and "year_now \<le> 9999"
  shows
   "issueNewCard rnd year_now month_now a
      = Inr (a\<lparr>cardExp := Some (month_now, (year_now + 3) mod 100),
               cardNum := Some (concat (map str_int (stake 16 rnd)))\<rparr>, sdrop 16 rnd) \<and>
    issueNewCard rnd year_now month_now (a\<lparr>cardNum := old_num, cardExp := old_exp\<rparr>)
      = Inr (a\<lparr>cardExp := Some (month_now, (year_now + 3) mod 100),
               cardNum := Some (concat (map str_int (stake 16 rnd)))\<rparr>, sdrop 16 rnd) \<and>
    length (concat (map str_int (stake 16 rnd))) = 16 \<and>
    list_all (\<lambda>c. c \<in> set ''0123456789'') (concat (map str_int (stake 16 rnd)))"
proof -
  have year: "py_int (drop 2 (str_int (year_now + 3))) = Inr ((year_now + 3) mod 100)"
    using assms(2,3) by (intro two_digit_year) simp_all
  have issue: "issueNewCard rnd year_now month_now b
      = Inr (b\<lparr>cardExp := Some (month_now, (year_now + 3) mod 100),
               cardNum := Some (concat (map str_int (stake 16 rnd)))\<rparr>, sdrop 16 rnd)"
    for b :: "'a BasicAccount_scheme"
    by (simp add: issueNewCard_def Let_def year card_digits_eq)
  have "length (stake 16 rnd) = 16" by simp
  with card_number_digits [OF assms(1)] issue [of a]
    issue [of "a\<lparr>cardNum := old_num, cardExp := old_exp\<rparr>"]
  show ?thesis by simp
qed

theorem issue_new_card_witness:
  "list_all (\<lambda>d. 0 \<le> d \<and> d \<le> 9)
     (stake 16 ([4,0,1,2,8,8,8,8,1,8,8,1,1,8,8,1] @- sconst (0::int))) \<and>
   (997::int) \<le> 2026 \<and> (2026::int) \<le> 9999 \<and>
   issueNewCard ([4,0,1,2,8,8,8,8,1,8,8,1,1,8,8,1] @- sconst 0) 2026 11
       (snd (BasicAccount_init 0 ''Ann'' (PyInt 100)))
     = Inr ((snd (BasicAccount_init 0 ''Ann'' (PyInt 100)))
              \<lparr>cardExp := Some (11, 29), cardNum := Some ''4012888818811881''\<rparr>, sconst 0)"
proof -
  have s: "stake 16 ([4,0,1,2,8,8,8,8,1,8,8,1,1,8,8,1] @- sconst (0::int))
             = [4,0,1,2,8,8,8,8,1,8,8,1,1,8,8,1]"
    using stake_shift [of 16 "[4,0,1,2,8,8,8,8,1,8,8,1,1,8,8,1]" "sconst (0::int)"] by simp
  have d: "sdrop 16 ([4,0,1,2,8,8,8,8,1,8,8,1,1,8,8,1] @- sconst (0::int)) = sconst 0"
    using sdrop_shift [of 16 "[4,0,1,2,8,8,8,8,1,8,8,1,1,8,8,1]" "sconst (0::int)"] by simp
  have h: "list_all (\<lambda>d. 0 \<le> d \<and> d \<le> 9)
             (stake 16 ([4,0,1,2,8,8,8,8,1,8,8,1,1,8,8,1] @- sconst (0::int)))"
    unfolding s by simp
  have c: "concat (map str_int [4,0,1,2,8,8,8,8,1,8,8,1,1,8,8,1]) = ''4012888818811881''"
    by (simp add: str_int_digit digit_char_def)
  show ?thesis
    using h issue_new_card [OF h, of 2026 11 "snd (BasicAccount_init 0 ''Ann'' (PyInt 100))"]
    unfolding s d c
    by simp
qed

text \<open>
  Below that range the slice \<open>str(exp_year)[2:]\<close> is no longer the last two digits:
  a clock set to the year 509 gives the expiry year 2, and one set to the year 96
  leaves \<open>int\<close> with the empty string.
\<close>

lemma short_years:
  "py_int (drop 2 (str_int (509 + 3))) = Inr 2 \<and>
   issueNewCard rnd 96 month_now a = Inl ValueError"
  by (simp add: issueNewCard_def py_int_def str_int_def digit_char_def digit_value_def
        str_nat.simps [of 512] str_nat.simps [of 51] str_nat.simps [of 5]
        str_nat.simps [of 99] str_nat.simps [of 9])

end
